theory Spec2Isabelle
  imports Main "HOL-Library.Signed_Division" "HOL-Library.Sublist"
begin

section \<open>Configuration, time and the random source\<close>

text \<open>
  The program keeps its settings in package-level variables (\<open>WorkDayStartHour\<close>,
  \<open>WorkDayEndHour\<close>, \<open>JitterMinutes\<close>, \<open>JitterDays\<close>); the model passes them as a record.
  Go's \<open>int\<close> and \<open>time.Duration\<close> are modelled as \<open>int\<close>: the numbers that occur
  (hours of a day, minutes of jitter, commit counts, nanoseconds within a few days) stay
  far below \<open>2 ^ 63\<close>. Division and remainder are Go's, truncating towards zero
  (\<open>sdiv\<close>, \<open>smod\<close>).
\<close>

record config =
  WorkDayStartHour :: int
  WorkDayEndHour :: int
  JitterMinutes :: int
  JitterDays :: bool

text \<open>
  A \<open>time.Time\<close> is an instant, counted in nanoseconds; a \<open>time.Duration\<close> is a number of
  nanoseconds. The argument \<open>day\<close> of the planner is represented by the instant of
  00:00:00 of its calendar date in its own location, and
  \<open>time.Date(day.Year(), day.Month(), day.Day(), h, 0, 0, 0, day.Location())\<close> is that
  instant plus \<open>h\<close> hours (the location has one UTC offset over the day, as the fixed
  zones read from a commit's \<open>-0700\<close> suffix have).
\<close>

type_synonym time = int
type_synonym duration = int

definition Minute :: duration where
  "Minute = 60 * 1000000000"

definition Hour :: duration where
  "Hour = 60 * Minute"

definition Date_at_hour :: "time \<Rightarrow> int \<Rightarrow> time" where
  "Date_at_hour day h = day + h * Hour"

text \<open>
  \<open>math/rand\<close>: the global generator is a sequence of raw draws; \<open>rnd k\<close> is the raw
  value behind the \<open>k\<close>-th call of \<open>rand.Intn\<close> made by the function under study.
  \<open>rand.Intn n\<close> panics unless \<open>n > 0\<close> and returns a value in \<open>[0, n)\<close> otherwise; every
  such value is reached by some raw draw.
\<close>

type_synonym rand_source = "nat \<Rightarrow> nat"

datatype panic = IntnNonPositive | IndexOutOfRange

definition Intn :: "nat \<Rightarrow> int \<Rightarrow> panic + int" where
  "Intn raw n = (if n \<le> 0 then Inl IntnNonPositive else Inr (int raw mod n))"

text \<open>The generator whose every raw draw is \<open>v\<close>.\<close>

definition constant_source :: "nat \<Rightarrow> rand_source" where
  "constant_source v k = v"

section \<open>Time Allocation Planner: \<open>generateCommitTimesForDay\<close>\<close>

text \<open>
  \<^verbatim>\<open>var jitter time.Duration
  if JitterMinutes > 0 {
      jitter = time.Duration(rand.Intn(JitterMinutes*2)-JitterMinutes) * time.Minute
  }\<close>
\<close>

definition jitter :: "config \<Rightarrow> nat \<Rightarrow> panic + duration" where
  "jitter cfg raw =
     (if JitterMinutes cfg > 0
      then (case Intn raw (JitterMinutes cfg * 2) of
              Inl p \<Rightarrow> Inl p
            | Inr r \<Rightarrow> Inr ((r - JitterMinutes cfg) * Minute))
      else Inr 0)"

text \<open>
  The loop \<open>for i := 0; i < commitCount; i++\<close> of the branch for several commits:
  \<open>place_from cfg rnd workDayStart interval i k\<close> runs the \<open>k\<close> iterations that start at
  index \<open>i\<close>; iteration \<open>i\<close> takes draw \<open>i\<close>.
\<close>

fun place_from :: "config \<Rightarrow> rand_source \<Rightarrow> time \<Rightarrow> duration \<Rightarrow> nat \<Rightarrow> nat \<Rightarrow> panic + time list" where
  "place_from cfg rnd workDayStart interval i 0 = Inr []"
| "place_from cfg rnd workDayStart interval i (Suc k) =
     (case jitter cfg (rnd i) of
        Inl p \<Rightarrow> Inl p
      | Inr j \<Rightarrow>
          (case place_from cfg rnd workDayStart interval (Suc i) k of
             Inl p \<Rightarrow> Inl p
           | Inr ts \<Rightarrow> Inr ((workDayStart + int i * interval + j) # ts)))"

text \<open>The clamping loop "Ensure all times are within work hours", for one element.\<close>

definition clamp_time :: "time \<Rightarrow> time \<Rightarrow> time \<Rightarrow> time" where
  "clamp_time workDayStart workDayEnd timeVal =
     (if timeVal < workDayStart then workDayStart
      else if timeVal > workDayEnd \<or> timeVal = workDayEnd then workDayEnd - Minute
      else timeVal)"

definition generateCommitTimesForDay :: "config \<Rightarrow> rand_source \<Rightarrow> time \<Rightarrow> int \<Rightarrow> panic + time list" where
  "generateCommitTimesForDay cfg rnd day commitCount =
     (if commitCount \<le> 0 then Inr []
      else
        let workDayStart = Date_at_hour day (WorkDayStartHour cfg);
            workDayEnd = Date_at_hour day (WorkDayEndHour cfg);
            workDayDuration = workDayEnd - workDayStart;
            times =
              (if commitCount = 1
               then (case Intn (rnd 0) 60 of
                       Inl p \<Rightarrow> Inl p
                     | Inr r \<Rightarrow>
                         (case jitter cfg (rnd 1) of
                            Inl p \<Rightarrow> Inl p
                          | Inr j \<Rightarrow> Inr [workDayEnd + (- r) * Minute + j]))
               else place_from cfg rnd workDayStart
                      (workDayDuration sdiv (commitCount - 1)) 0 (nat commitCount))
        in case times of
             Inl p \<Rightarrow> Inl p
           | Inr ts \<Rightarrow> Inr (sort (map (clamp_time workDayStart workDayEnd) ts)))"

section \<open>Day Allocation Distributor: \<open>allocateAcrossDays\<close>\<close>

text \<open>Writes to the slice \<open>out\<close>; an index outside the slice panics in Go.\<close>

definition set_at :: "int \<Rightarrow> int \<Rightarrow> int list \<Rightarrow> panic + int list" where
  "set_at i v out =
     (if 0 \<le> i \<and> i < int (length out) then Inr (out[nat i := v]) else Inl IndexOutOfRange)"

definition incr_at :: "int \<Rightarrow> int list \<Rightarrow> panic + int list" where
  "incr_at i out =
     (if 0 \<le> i \<and> i < int (length out) then Inr (out[nat i := out ! nat i + 1])
      else Inl IndexOutOfRange)"

definition dayOffset :: "config \<Rightarrow> nat \<Rightarrow> int \<Rightarrow> int \<Rightarrow> panic + int" where
  "dayOffset cfg raw availableDays i =
     (if JitterDays cfg then Intn raw availableDays
      else Inr ((i * 7 + i * i) smod availableDays))"

text \<open>
  The loop over the middle commits when there are interior days:
  \<open>middle_spread cfg rnd availableDays i k out\<close> runs the \<open>k\<close> iterations from index \<open>i\<close>.
\<close>

fun middle_spread :: "config \<Rightarrow> rand_source \<Rightarrow> int \<Rightarrow> nat \<Rightarrow> nat \<Rightarrow> int list \<Rightarrow> panic + int list" where
  "middle_spread cfg rnd availableDays i 0 out = Inr out"
| "middle_spread cfg rnd availableDays i (Suc k) out =
     (case dayOffset cfg (rnd i) availableDays (int i) of
        Inl p \<Rightarrow> Inl p
      | Inr off \<Rightarrow>
          (case incr_at (1 + off) out of
             Inl p \<Rightarrow> Inl p
           | Inr out' \<Rightarrow> middle_spread cfg rnd availableDays (Suc i) k out'))"

text \<open>The loop over the middle commits when there is no interior day.\<close>

fun middle_alternate :: "int \<Rightarrow> nat \<Rightarrow> nat \<Rightarrow> int list \<Rightarrow> panic + int list" where
  "middle_alternate m i 0 out = Inr out"
| "middle_alternate m i (Suc k) out =
     (case incr_at (if int i smod 2 = 0 then 0 else m - 1) out of
        Inl p \<Rightarrow> Inl p
      | Inr out' \<Rightarrow> middle_alternate m (Suc i) k out')"

definition allocateAcrossDays :: "config \<Rightarrow> rand_source \<Rightarrow> int \<Rightarrow> int \<Rightarrow> panic + int list" where
  "allocateAcrossDays cfg rnd n m =
     (if m \<le> 0 then Inr []
      else
        let out = replicate (nat m) 0 in
        if n \<le> 0 then Inr out
        else if n = 1 then set_at (m - 1) 1 out
        else if m = 1 then set_at 0 n out
        else
          (case set_at 0 1 out of
             Inl p \<Rightarrow> Inl p
           | Inr out1 \<Rightarrow>
               (case set_at (m - 1) 1 out1 of
                  Inl p \<Rightarrow> Inl p
                | Inr out2 \<Rightarrow>
                    if n > 2
                    then
                      (let middleCommits = n - 2;
                           availableDays = m - 2
                       in if availableDays > 0
                          then middle_spread cfg rnd availableDays 0 (nat middleCommits) out2
                          else middle_alternate m 0 (nat middleCommits) out2)
                    else Inr out2)))"

section \<open>History Rewrite Executor: \<open>UpdateCommitTimes\<close>\<close>

record Commit =
  Hash :: string
  Subject :: string
  Author :: string
  Email :: string
  DateTime :: string
  IsMerge :: bool
  MergeFrom :: string

definition emptyTreeHash :: string where
  "emptyTreeHash = ''4b825dc642cb6eb9a060e54bf8d69288fbee4904''"

text \<open>
  The executor acts on the repository only by running \<open>git\<close>. A command is its argument
  list (\<open>runGitCommand\<close>), or its argument list with the variables added to
  \<open>os.Environ()\<close> (the amend, run through \<open>exec.Command\<close>). The repository and everything
  around it is a \<open>world\<close>: it answers the next command given all commands run so far and
  their answers, with the standard output on success. The trace of a run is the list of
  commands with their answers, in the order they ran. \<open>repoPath\<close> is fixed for a run and
  is part of the world.
\<close>

datatype command = Git "string list" | GitEnv "string list" "string list"

datatype response = Ok string | Fail

type_synonym event = "command \<times> response"

type_synonym world = "event list \<Rightarrow> command \<Rightarrow> response"

datatype error =
    CheckoutParentFailed string
  | CreateRewriteBranchFailed string
  | MergeNoSource string
  | GetMessageFailed string
  | MergeFailed string
  | CherryPickFailed string
  | AmendFailed
  | CheckoutBranchFailed string
  | DeleteRewriteBranchFailed string

text \<open>What one step of the loop body reports: it went through, it returns an error, or
  it panics (a slice bound out of range).\<close>

datatype applied = Applied | ApplyError error | ApplyPanic

text \<open>\<open>UpdateCommitTimes\<close> returns \<open>(successfulUpdates, err)\<close>, or panics.\<close>

datatype outcome = Returned nat "error option" | Panicked

datatype loop_exit = Completed nat | Stopped outcome

definition run :: "world \<Rightarrow> event list \<Rightarrow> command \<Rightarrow> response \<times> event list" where
  "run w tr c = (let r = w tr c in (r, tr @ [(c, r)]))"

definition runGitCommand :: "world \<Rightarrow> event list \<Rightarrow> string list \<Rightarrow> response \<times> event list" where
  "runGitCommand w tr args = (if args = [] then (Fail, tr) else run w tr (Git args))"

text \<open>\<open>strings.Contains s substr\<close>.\<close>

fun Contains :: "string \<Rightarrow> string \<Rightarrow> bool" where
  "Contains [] substr = (substr = [])"
| "Contains (c # cs) substr = (prefix substr (c # cs) \<or> Contains cs substr)"

text \<open>\<open>statusErr == nil && strings.Contains(status, "cherry-picking")\<close>\<close>

definition in_cherry_pick_state :: "response \<Rightarrow> bool" where
  "in_cherry_pick_state r = (case r of Ok status \<Rightarrow> Contains status ''cherry-picking'' | Fail \<Rightarrow> False)"

text \<open>
  The settings of one run. \<open>Format\<close> stands for \<open>newTime.Format("2006-01-02T15:04:05")\<close>
  and \<open>extractBranchName\<close> for \<open>extractBranchNameFromMergeMessage\<close>, whose result only
  enters the text of the merge message; both are left open, so that every theorem holds
  for the real ones.
\<close>

record session =
  git :: world
  Format :: "time \<Rightarrow> string"
  extractBranchName :: "string \<Rightarrow> string"
  newTimes :: "time list"
  parentCommitHash :: string
  branchName :: string
  rewriteBranchName :: string
  newCommitAuthorName :: string
  newCommitAuthorEmail :: string

text \<open>The branch of the loop body for a merge commit.\<close>

definition mergeCommit :: "session \<Rightarrow> event list \<Rightarrow> Commit \<Rightarrow> applied \<times> event list" where
  "mergeCommit s tr commit =
     (if MergeFrom commit = [] then (ApplyError (MergeNoSource (Hash commit)), tr)
      else
        (case runGitCommand (git s) tr [''log'', ''--format=%B'', ''-n'', ''1'', Hash commit] of
           (Fail, tr1) \<Rightarrow> (ApplyError (GetMessageFailed (Hash commit)), tr1)
         | (Ok originalMessage, tr1) \<Rightarrow>
             (let extracted = extractBranchName s originalMessage
              in if extracted = [] \<and> length (MergeFrom commit) < 8 then (ApplyPanic, tr1)
                 else
                   (let originalBranchName =
                          (if extracted = [] then take 8 (MergeFrom commit) else extracted);
                        customMergeMessage =
                          ''Merge branch '' @ [CHR 0x27] @ originalBranchName @ [CHR 0x27]
                            @ '' into '' @ branchName s
                    in case runGitCommand (git s) tr1
                              [''merge'', ''-m'', customMergeMessage, MergeFrom commit] of
                         (Fail, tr2) \<Rightarrow> (ApplyError (MergeFailed (MergeFrom commit)), tr2)
                       | (Ok out, tr2) \<Rightarrow> (Applied, tr2)))))"

text \<open>The branch of the loop body for a regular commit: the cherry-pick and its recovery.\<close>

definition cherryPick :: "world \<Rightarrow> event list \<Rightarrow> Commit \<Rightarrow> applied \<times> event list" where
  "cherryPick w tr commit =
     (case runGitCommand w tr [''cherry-pick'', Hash commit] of
        (Ok out, tr1) \<Rightarrow> (Applied, tr1)
      | (Fail, tr1) \<Rightarrow>
          (case runGitCommand w tr1 [''status''] of
             (status, tr2) \<Rightarrow>
               if in_cherry_pick_state status
               then
                 (case runGitCommand w tr2 [''cherry-pick'', ''--continue''] of
                    (Ok out, tr3) \<Rightarrow> (Applied, tr3)
                  | (Fail, tr3) \<Rightarrow>
                      (case runGitCommand w tr3 [''cherry-pick'', ''--skip''] of
                         (Ok out, tr4) \<Rightarrow> (Applied, tr4)
                       | (Fail, tr4) \<Rightarrow>
                           (case runGitCommand w tr4 [''cherry-pick'', ''--abort''] of
                              (ignored, tr5) \<Rightarrow>
                                (case runGitCommand w tr5
                                        [''cherry-pick'', ''--allow-empty'', Hash commit] of
                                   (Ok out, tr6) \<Rightarrow> (Applied, tr6)
                                 | (Fail, tr6) \<Rightarrow>
                                     (ApplyError (CherryPickFailed (Hash commit)), tr6)))))
               else
                 (case runGitCommand w tr2 [''cherry-pick'', ''--allow-empty'', Hash commit] of
                    (Ok out, tr3) \<Rightarrow> (Applied, tr3)
                  | (Fail, tr3) \<Rightarrow> (ApplyError (CherryPickFailed (Hash commit)), tr3))))"

text \<open>The variables the amend adds to the environment, in the order they are appended.\<close>

definition amendEnv :: "string \<Rightarrow> string \<Rightarrow> string \<Rightarrow> string list" where
  "amendEnv newTimeStr name email =
     [''GIT_AUTHOR_DATE='' @ newTimeStr, ''GIT_COMMITTER_DATE='' @ newTimeStr]
     @ (if name \<noteq> [] then [''GIT_AUTHOR_NAME='' @ name, ''GIT_COMMITTER_NAME='' @ name] else [])
     @ (if email \<noteq> [] then [''GIT_AUTHOR_EMAIL='' @ email, ''GIT_COMMITTER_EMAIL='' @ email] else [])"

definition amendCommand :: "string \<Rightarrow> string \<Rightarrow> string \<Rightarrow> command" where
  "amendCommand newTimeStr name email =
     GitEnv [''commit'', ''--amend'', ''--no-edit'', ''--reset-author'']
            (amendEnv newTimeStr name email)"

text \<open>
  The loop \<open>for i, commit := range commits\<close>: \<open>replay s commits i successfulUpdates tr\<close>
  runs the iterations for the remaining \<open>commits\<close>, the first of them with index \<open>i\<close>.
  \<open>newTimes[i]\<close> panics when \<open>newTimes\<close> is too short.
\<close>

fun replay :: "session \<Rightarrow> Commit list \<Rightarrow> nat \<Rightarrow> nat \<Rightarrow> event list \<Rightarrow> loop_exit \<times> event list" where
  "replay s [] i successfulUpdates tr = (Completed successfulUpdates, tr)"
| "replay s (commit # rest) i successfulUpdates tr =
     (if length (newTimes s) \<le> i then (Stopped Panicked, tr)
      else
        (let newTime = newTimes s ! i
         in case (if IsMerge commit then mergeCommit s tr commit
                  else cherryPick (git s) tr commit) of
              (ApplyPanic, tr1) \<Rightarrow> (Stopped Panicked, tr1)
            | (ApplyError e, tr1) \<Rightarrow> (Stopped (Returned successfulUpdates (Some e)), tr1)
            | (Applied, tr1) \<Rightarrow>
                (case run (git s) tr1
                        (amendCommand (Format s newTime) (newCommitAuthorName s)
                           (newCommitAuthorEmail s)) of
                   (Fail, tr2) \<Rightarrow> (Stopped (Returned successfulUpdates (Some AmendFailed)), tr2)
                 | (Ok out, tr2) \<Rightarrow> replay s rest (Suc i) (Suc successfulUpdates) tr2)))"

definition UpdateCommitTimes :: "session \<Rightarrow> Commit list \<Rightarrow> outcome \<times> event list" where
  "UpdateCommitTimes s commits =
     (case (if parentCommitHash s \<noteq> emptyTreeHash
            then runGitCommand (git s) [] [''checkout'', parentCommitHash s]
            else (Ok [], [])) of
        (Fail, tr0) \<Rightarrow> (Returned 0 (Some (CheckoutParentFailed (parentCommitHash s))), tr0)
      | (Ok out0, tr0) \<Rightarrow>
          (case runGitCommand (git s) tr0 [''checkout'', ''-b'', rewriteBranchName s] of
             (Fail, tr1) \<Rightarrow>
               (Returned 0 (Some (CreateRewriteBranchFailed (rewriteBranchName s))), tr1)
           | (Ok out1, tr1) \<Rightarrow>
               (case replay s commits 0 0 tr1 of
                  (Stopped result, tr2) \<Rightarrow> (result, tr2)
                | (Completed successfulUpdates, tr2) \<Rightarrow>
                    (case runGitCommand (git s) tr2 [''checkout'', ''-B'', branchName s] of
                       (Fail, tr3) \<Rightarrow>
                         (Returned successfulUpdates (Some (CheckoutBranchFailed (branchName s))), tr3)
                     | (Ok out3, tr3) \<Rightarrow>
                         (case runGitCommand (git s) tr3 [''branch'', ''-D'', rewriteBranchName s] of
                            (Fail, tr4) \<Rightarrow>
                              (Returned successfulUpdates
                                 (Some (DeleteRewriteBranchFailed (rewriteBranchName s))), tr4)
                          | (Ok out4, tr4) \<Rightarrow> (Returned successfulUpdates None, tr4))))))"

section \<open>Reading a trace\<close>

definition is_amend :: "command \<Rightarrow> bool" where
  "is_amend c = (case c of GitEnv args env \<Rightarrow> True | Git args \<Rightarrow> False)"

definition is_ok :: "response \<Rightarrow> bool" where
  "is_ok r = (case r of Ok out \<Rightarrow> True | Fail \<Rightarrow> False)"

text \<open>The amend commands of a trace, in the order they ran.\<close>

definition amends :: "event list \<Rightarrow> command list" where
  "amends tr = filter is_amend (map fst tr)"

text \<open>The number of commits replayed successfully: applied and then amended.\<close>

definition successful_amends :: "event list \<Rightarrow> nat" where
  "successful_amends tr = length (filter (\<lambda>e. is_amend (fst e) \<and> is_ok (snd e)) tr)"

definition deleteCommand :: "string \<Rightarrow> command" where
  "deleteCommand rewriteBranch = Git [''branch'', ''-D'', rewriteBranch]"

text \<open>The deletion of the rewrite branch was run; it was run and succeeded.\<close>

definition delete_run :: "string \<Rightarrow> event list \<Rightarrow> bool" where
  "delete_run rewriteBranch tr = (deleteCommand rewriteBranch \<in> set (map fst tr))"

definition deleted :: "string \<Rightarrow> event list \<Rightarrow> bool" where
  "deleted rewriteBranch tr =
     list_ex (\<lambda>e. fst e = deleteCommand rewriteBranch \<and> is_ok (snd e)) tr"

text \<open>The commands of the loop body other than the amend.\<close>

definition apply_command :: "command \<Rightarrow> bool" where
  "apply_command c =
     (case c of
        Git args \<Rightarrow> take 1 args = [''cherry-pick''] \<or> take 1 args = [''status'']
                      \<or> take 1 args = [''log''] \<or> take 1 args = [''merge'']
      | GitEnv args env \<Rightarrow> False)"

text \<open>
  What the loop leaves behind, for a loop started with the count \<open>n\<close> over \<open>len\<close> commits and
  having added the events \<open>ext\<close> to the trace: either every commit was amended
  successfully, or it stopped with an error and the count of those amended so far; a
  failed cherry-pick is reported only right after its retry with \<open>--allow-empty\<close> failed.
\<close>

definition replay_post :: "nat \<Rightarrow> nat \<Rightarrow> event list \<Rightarrow> loop_exit \<Rightarrow> bool" where
  "replay_post n len ext ex =
     (case ex of
        Completed m \<Rightarrow> m = n + len \<and> successful_amends ext = len
      | Stopped r \<Rightarrow>
          (case r of
             Panicked \<Rightarrow> True
           | Returned m eo \<Rightarrow>
               (case eo of
                  None \<Rightarrow> False
                | Some e \<Rightarrow> m = n + successful_amends ext \<and> successful_amends ext < len \<and>
                    (\<forall>h. e = CherryPickFailed h \<longrightarrow> ext \<noteq> [] \<and>
                       last ext = (Git [''cherry-pick'', ''--allow-empty'', h], Fail)))))"

text \<open>
  The ways a run of \<open>UpdateCommitTimes\<close> can end, by the events \<open>ext\<close> of its loop and the
  events \<open>tail\<close> after the loop: it failed before the loop, it stopped inside the loop, or
  the loop finished and the branch swap failed, the deletion failed, or both succeeded.
\<close>

definition update_shape :: "session \<Rightarrow> nat \<Rightarrow> outcome \<Rightarrow> event list \<Rightarrow> event list \<Rightarrow> bool" where
  "update_shape s len result ext tail =
     ((tail = [] \<and> ext = [] \<and>
         (result = Returned 0 (Some (CheckoutParentFailed (parentCommitHash s))) \<or>
          result = Returned 0 (Some (CreateRewriteBranchFailed (rewriteBranchName s)))))
      \<or> (tail = [] \<and> replay_post 0 len ext (Stopped result))
      \<or> (successful_amends ext = len \<and>
           ((tail = [(Git [''checkout'', ''-B'', branchName s], Fail)] \<and>
               result = Returned len (Some (CheckoutBranchFailed (branchName s))))
            \<or> (\<exists>out. tail = [(Git [''checkout'', ''-B'', branchName s], Ok out),
                               (deleteCommand (rewriteBranchName s), Fail)] \<and>
               result = Returned len (Some (DeleteRewriteBranchFailed (rewriteBranchName s))))
            \<or> (\<exists>out out'. tail = [(Git [''checkout'', ''-B'', branchName s], Ok out),
                               (deleteCommand (rewriteBranchName s), Ok out')] \<and>
               result = Returned len None))))"

subsection \<open>Reading the environment of a command\<close>

text \<open>
  The value a command sees for a variable among those added to \<open>os.Environ()\<close>: of
  several assignments of one key the last counts (\<open>os/exec\<close>), and a key that is not
  assigned is left to the inherited environment.
\<close>

definition env_value :: "string \<Rightarrow> string list \<Rightarrow> string option" where
  "env_value key env =
     (case filter (prefix (key @ ''='')) (rev env) of
        [] \<Rightarrow> None
      | e # es \<Rightarrow> Some (drop (length key + 1) e))"

section \<open>Concrete inputs\<close>

text \<open>A work day from 9:00 to 17:00, no jitter of minutes, no jitter of days.\<close>

definition office_hours :: config where
  "office_hours = \<lparr>WorkDayStartHour = 9, WorkDayEndHour = 17, JitterMinutes = 0, JitterDays = False\<rparr>"

text \<open>The same work day with the days jittered, as by default.\<close>

definition office_hours_day_jitter :: config where
  "office_hours_day_jitter = office_hours\<lparr>JitterDays := True\<rparr>"

text \<open>A night shift, from 22:00 to 6:00: the start hour lies after the end hour.\<close>

definition night_shift :: config where
  "night_shift = \<lparr>WorkDayStartHour = 22, WorkDayEndHour = 6, JitterMinutes = 0, JitterDays = False\<rparr>"

text \<open>Worlds. In the first every command succeeds with empty output.\<close>

definition obliging_world :: world where
  "obliging_world tr c = Ok []"

text \<open>In the second the checkouts succeed, \<open>git status\<close> reports a clean tree and every
  other command fails.\<close>

definition stuck_world :: world where
  "stuck_world tr c =
     (case c of
        Git args \<Rightarrow>
          (if take 1 args = [''checkout''] then Ok []
           else if args = [''status''] then Ok ''nothing to commit, working tree clean''
           else Fail)
      | GitEnv args env \<Rightarrow> Fail)"

text \<open>In the third the checkouts succeed, \<open>git status\<close> reports a cherry-pick in progress
  and every other command fails.\<close>

definition conflicting_world :: world where
  "conflicting_world tr c =
     (case c of
        Git args \<Rightarrow>
          (if take 1 args = [''checkout''] then Ok []
           else if args = [''status''] then Ok ''You are currently cherry-picking commit 1f2e3d4.''
           else Fail)
      | GitEnv args env \<Rightarrow> Fail)"

definition stamp :: "time \<Rightarrow> string" where
  "stamp t = (if t = 0 then ''1970-01-01T00:00:00'' else ''2024-01-01T09:00:00'')"

definition no_branch_name :: "string \<Rightarrow> string" where
  "no_branch_name message = []"

text \<open>A regular commit by Alice, and a run over it with no author override.\<close>

definition alices_commit :: Commit where
  "alices_commit =
     \<lparr>Hash = ''1f2e3d4c'', Subject = ''Add parser'', Author = ''Alice'',
      Email = ''alice@example.com'', DateTime = ''2024-01-01 20:15:00 +0000'',
      IsMerge = False, MergeFrom = []\<rparr>"

definition plain_session :: "world \<Rightarrow> session" where
  "plain_session w =
     \<lparr>git = w, Format = stamp, extractBranchName = no_branch_name, newTimes = [0],
      parentCommitHash = ''9a8b7c6d'', branchName = ''main'',
      rewriteBranchName = ''rewrite-history'',
      newCommitAuthorName = [], newCommitAuthorEmail = []\<rparr>"

section \<open>The planner: facts about the loops\<close>

lemmas planner_eval =
  generateCommitTimesForDay_def Date_at_hour_def jitter_def clamp_time_def Let_def
  Hour_def Minute_def signed_divide_int_def Intn_def constant_source_def

lemma smod_nonneg: "0 \<le> a \<Longrightarrow> 0 < b \<Longrightarrow> (a::int) smod b = a mod b"
  by (simp add: signed_modulo_int_def sgn_if)

lemma jitter_total: "\<exists>j. jitter cfg raw = Inr j"
  by (simp add: jitter_def Intn_def)

lemma place_from_total:
  "\<exists>ts. place_from cfg rnd s iv i k = Inr ts \<and> length ts = k"
proof (induction k arbitrary: i)
  case 0
  show ?case by simp
next
  case (Suc k)
  obtain j where j: "jitter cfg (rnd i) = Inr j" using jitter_total by blast
  obtain ts where ts: "place_from cfg rnd s iv (Suc i) k = Inr ts" "length ts = k"
    using Suc.IH by blast
  show ?case by (simp add: j ts)
qed

lemma place_from_no_jitter:
  "JitterMinutes cfg \<le> 0 \<Longrightarrow> place_from cfg rnd s iv i k = place_from cfg rnd' s iv i k"
  by (induction k arbitrary: i) (simp_all add: jitter_def)

lemma Minute_le_Hour: "Minute \<le> Hour" "0 < Minute"
  by (simp_all add: Hour_def Minute_def)

lemma clamp_time_window:
  assumes "s \<le> e - Minute"
  shows "s \<le> clamp_time s e t \<and> clamp_time s e t < e"
  using assms Minute_le_Hour(2) by (auto simp: clamp_time_def)

lemma window_hours:
  assumes "a < b"
  shows "Date_at_hour day a \<le> Date_at_hour day b - Minute"
proof -
  have "a + 1 \<le> b" using assms by simp
  then have "(a + 1) * Hour \<le> b * Hour"
    by (intro mult_right_mono) (simp_all add: Hour_def Minute_def)
  then show ?thesis using Minute_le_Hour(1)
    by (simp add: Date_at_hour_def algebra_simps)
qed

text \<open>For a positive count the planner returns: the sorted, clamped placements.\<close>

lemma generate_returns:
  assumes "1 \<le> n"
  shows "\<exists>ts. generateCommitTimesForDay cfg rnd day n =
           Inr (sort (map (clamp_time (Date_at_hour day (WorkDayStartHour cfg))
                                      (Date_at_hour day (WorkDayEndHour cfg))) ts))
             \<and> length ts = nat n"
proof (cases "n = 1")
  case True
  obtain j where j: "jitter cfg (rnd 1) = Inr j" using jitter_total by blast
  show ?thesis using True j
    by (intro exI [of _ "[Date_at_hour day (WorkDayEndHour cfg) + (- (int (rnd 0) mod 60)) * Minute + j]"])
       (simp add: generateCommitTimesForDay_def Intn_def Let_def)
next
  case False
  obtain ts where ts: "place_from cfg rnd (Date_at_hour day (WorkDayStartHour cfg))
       ((Date_at_hour day (WorkDayEndHour cfg) - Date_at_hour day (WorkDayStartHour cfg)) sdiv (n - 1))
       0 (nat n) = Inr ts" "length ts = nat n"
    using place_from_total by blast
  show ?thesis using False assms ts(2)
    by (intro exI [of _ ts]) (simp add: generateCommitTimesForDay_def Let_def ts(1))
qed

section \<open>The planner: the claims\<close>

text \<open>
  C2. The claim is that in a degenerate work window (start hour equal to end hour) every
  timestamp equals the window start. The code does otherwise: with the window 12:00 to
  12:00 and no jitter, two commits are both placed at 11:59, one minute before the start,
  and so is a single commit whose draw for the evening offset is 0. A timestamp that is not
  before the start is at or after the end there, and the clamp sends it to one minute
  before the end.
\<close>

theorem degenerate_window_one_minute_before_start:
  "generateCommitTimesForDay
      \<lparr>WorkDayStartHour = 12, WorkDayEndHour = 12, JitterMinutes = 0, JitterDays = jd\<rparr> rnd day 2
     = Inr [Date_at_hour day 12 - Minute, Date_at_hour day 12 - Minute]
   \<and> generateCommitTimesForDay
      \<lparr>WorkDayStartHour = 12, WorkDayEndHour = 12, JitterMinutes = 0, JitterDays = jd\<rparr>
      (constant_source 0) day 1
     = Inr [Date_at_hour day 12 - Minute]
   \<and> Date_at_hour day 12 - Minute \<noteq> Date_at_hour day 12"
  by (simp add: planner_eval numeral_2_eq_2)

text \<open>
  C3, as amended. For every day, every count \<open>n \<ge> 1\<close> and every jitter setting the planner
  returns exactly \<open>n\<close> timestamps in ascending order; when the start hour of the work window
  lies before its end hour, every one of them lies in \<open>[start, end)\<close>, so none equals or
  exceeds the end.
\<close>

theorem planDay_count_sorted_window:
  assumes "1 \<le> n"
  shows "\<exists>ts. generateCommitTimesForDay cfg rnd day n = Inr ts \<and> length ts = nat n \<and> sorted ts \<and>
           (WorkDayStartHour cfg < WorkDayEndHour cfg \<longrightarrow>
              (\<forall>t \<in> set ts. Date_at_hour day (WorkDayStartHour cfg) \<le> t \<and>
                             t < Date_at_hour day (WorkDayEndHour cfg)))"
proof -
  obtain ts where ts: "generateCommitTimesForDay cfg rnd day n =
           Inr (sort (map (clamp_time (Date_at_hour day (WorkDayStartHour cfg))
                                      (Date_at_hour day (WorkDayEndHour cfg))) ts))"
      "length ts = nat n"
    using generate_returns [OF assms] by blast
  show ?thesis using ts clamp_time_window [OF window_hours]
    by auto
qed

text \<open>The theorem at three commits on the day starting at instant 0, from 9:00 to 17:00.\<close>

theorem planDay_count_sorted_window_witness:
  "(1::int) \<le> 3 \<and> WorkDayStartHour office_hours < WorkDayEndHour office_hours \<and>
   (case generateCommitTimesForDay office_hours (constant_source 0) 0 3 of
      Inl p \<Rightarrow> False
    | Inr ts \<Rightarrow> length ts = 3 \<and> sorted ts \<and>
        list_all (\<lambda>t. Date_at_hour 0 9 \<le> t \<and> t < Date_at_hour 0 17) ts)"
  using planDay_count_sorted_window [of 3 office_hours "constant_source 0" 0]
  by (auto simp: office_hours_def list_all_iff)

text \<open>
  C3 as stated fails when the start hour lies after the end hour: for the night shift,
  two commits without jitter come back as 5:59 and 22:00, and 22:00 exceeds the end of
  the window, 6:00.
\<close>

theorem planDay_night_shift_counterexample:
  "generateCommitTimesForDay night_shift (constant_source 0) 0 2
     = Inr [Date_at_hour 0 6 - Minute, Date_at_hour 0 22]
   \<and> Date_at_hour 0 (WorkDayEndHour night_shift) \<le> Date_at_hour 0 22"
  by (simp add: planner_eval night_shift_def numeral_2_eq_2)

text \<open>
  C4. With the work window 9:00 to 17:00 and jitter 0, three commits on one day are placed
  at 09:00, 13:00 and 16:59, in this order: the start, the start plus one interval of four
  hours, and the end clamped to one minute before it.
\<close>

theorem planDay_three_commits_office_hours:
  "generateCommitTimesForDay
      \<lparr>WorkDayStartHour = 9, WorkDayEndHour = 17, JitterMinutes = 0, JitterDays = jd\<rparr> rnd day 3
     = Inr [day + 9 * Hour, day + 13 * Hour, day + 16 * Hour + 59 * Minute]"
  by (simp add: planner_eval numeral_3_eq_3)

text \<open>
  C10. With jitter 0 the planner's result for a count of at least 2 does not depend on the
  random source: two runs on the same day and count agree. For a count of 1 it does: the
  offset from the end of the day is drawn whatever the jitter setting is, and for every
  window whose start hour is not after its end hour the draws 0 and 2 lead to different
  timestamps.
\<close>

theorem planDay_determinism:
  "(JitterMinutes cfg = 0 \<and> 2 \<le> n \<longrightarrow>
      generateCommitTimesForDay cfg rnd day n = generateCommitTimesForDay cfg rnd' day n)
   \<and> (JitterMinutes cfg = 0 \<and> WorkDayStartHour cfg \<le> WorkDayEndHour cfg \<longrightarrow>
      generateCommitTimesForDay cfg (constant_source 0) day 1
        \<noteq> generateCommitTimesForDay cfg (constant_source 2) day 1)"
proof (intro conjI impI)
  assume "JitterMinutes cfg = 0 \<and> 2 \<le> n"
  then show "generateCommitTimesForDay cfg rnd day n = generateCommitTimesForDay cfg rnd' day n"
    using place_from_no_jitter [of cfg rnd _ _ 0 "nat n" rnd']
    by (simp add: generateCommitTimesForDay_def Let_def)
next
  assume a: "JitterMinutes cfg = 0 \<and> WorkDayStartHour cfg \<le> WorkDayEndHour cfg"
  then have "WorkDayStartHour cfg * Hour \<le> WorkDayEndHour cfg * Hour"
    by (intro mult_right_mono) (simp_all add: Hour_def Minute_def)
  moreover have "WorkDayStartHour cfg < WorkDayEndHour cfg \<Longrightarrow>
      (WorkDayStartHour cfg + 1) * Hour \<le> WorkDayEndHour cfg * Hour"
    by (intro mult_right_mono) (simp_all add: Hour_def Minute_def)
  ultimately show "generateCommitTimesForDay cfg (constant_source 0) day 1
      \<noteq> generateCommitTimesForDay cfg (constant_source 2) day 1"
    using a
    by (cases "WorkDayStartHour cfg = WorkDayEndHour cfg")
       (auto simp add: generateCommitTimesForDay_def Date_at_hour_def jitter_def clamp_time_def
          Let_def Intn_def constant_source_def Hour_def Minute_def algebra_simps)
qed

text \<open>The theorem at office hours: three commits agree under the draws 0 and 7, one
  commit differs under the draws 0 and 2.\<close>

theorem planDay_determinism_witness:
  "JitterMinutes office_hours = 0 \<and> (2::int) \<le> 3
   \<and> WorkDayStartHour office_hours \<le> WorkDayEndHour office_hours
   \<and> generateCommitTimesForDay office_hours (constant_source 0) 0 3
       = generateCommitTimesForDay office_hours (constant_source 7) 0 3
   \<and> generateCommitTimesForDay office_hours (constant_source 0) 0 1
       \<noteq> generateCommitTimesForDay office_hours (constant_source 2) 0 1"
  using planDay_determinism [of office_hours 3 "constant_source 0" 0 "constant_source 7"]
  by (simp add: office_hours_def)

section \<open>The distributor: facts about the loops\<close>

lemma incr_at_in_range:
  "0 \<le> i \<Longrightarrow> i < int (length out) \<Longrightarrow> incr_at i out = Inr (out[nat i := out ! nat i + 1])"
  by (simp add: incr_at_def)

lemma sum_list_set:
  "k < length (out :: int list) \<Longrightarrow> sum_list (out[k := v]) = sum_list out + v - out ! k"
  by (induction out arbitrary: k) (auto split: nat.splits)

lemma sum_list_incr:
  "k < length (out :: int list) \<Longrightarrow> sum_list (out[k := out ! k + 1]) = sum_list out + 1"
  by (simp add: sum_list_set)

text \<open>Where there are interior days, the offset of a middle commit is one of them.\<close>

lemma dayOffset_range:
  assumes "0 < avail"
  shows "\<exists>off. dayOffset cfg raw avail (int i) = Inr off \<and> 0 \<le> off \<and> off < avail"
proof (cases "JitterDays cfg")
  case True
  then show ?thesis using assms by (simp add: dayOffset_def Intn_def)
next
  case False
  have "(int i * 7 + int i * int i) smod avail = (int i * 7 + int i * int i) mod avail"
    using assms by (intro smod_nonneg) simp_all
  then show ?thesis using False assms by (simp add: dayOffset_def)
qed

text \<open>The spreading loop never writes outside the slice, adds one per iteration and
  leaves the first and the last slot alone.\<close>

lemma middle_spread_inv:
  assumes "0 < avail" and "int (length out) = avail + 2"
  shows "\<exists>out'. middle_spread cfg rnd avail i k out = Inr out' \<and> length out' = length out \<and>
           sum_list out' = sum_list out + int k \<and> out' ! 0 = out ! 0 \<and>
           out' ! (length out - 1) = out ! (length out - 1)"
  using assms(2)
proof (induction k arbitrary: i out)
  case 0
  show ?case by simp
next
  case (Suc k)
  obtain off where off: "dayOffset cfg (rnd i) avail (int i) = Inr off" "0 \<le> off" "off < avail"
    using dayOffset_range [OF assms(1)] by blast
  let ?out1 = "out[nat (1 + off) := out ! nat (1 + off) + 1]"
  have idx: "nat (1 + off) < length out" "nat (1 + off) \<noteq> 0" "nat (1 + off) \<noteq> length out - 1"
    using off Suc.prems by linarith+
  have step: "incr_at (1 + off) out = Inr ?out1"
    using off Suc.prems by (intro incr_at_in_range) simp_all
  have len: "int (length ?out1) = avail + 2" using Suc.prems by simp
  obtain out' where out': "middle_spread cfg rnd avail (Suc i) k ?out1 = Inr out'"
      "length out' = length ?out1" "sum_list out' = sum_list ?out1 + int k"
      "out' ! 0 = ?out1 ! 0" "out' ! (length ?out1 - 1) = ?out1 ! (length ?out1 - 1)"
    using Suc.IH [OF len] by blast
  have "sum_list ?out1 = sum_list out + 1" using idx(1) by (rule sum_list_incr)
  moreover have "?out1 ! 0 = out ! 0" using idx(2) by simp
  moreover have "?out1 ! (length out - 1) = out ! (length out - 1)" using idx(3) by simp
  ultimately show ?case using out' by (simp add: off(1) step)
qed

text \<open>With two days the alternating loop adds one per iteration, to either slot.\<close>

lemma middle_alternate_inv:
  assumes "length out = 2"
  shows "\<exists>out'. middle_alternate 2 i k out = Inr out' \<and> length out' = 2 \<and>
           sum_list out' = sum_list out + int k \<and> out ! 0 \<le> out' ! 0 \<and> out ! 1 \<le> out' ! 1"
  using assms
proof (induction k arbitrary: i out)
  case 0
  then show ?case by simp
next
  case (Suc k)
  let ?j = "if int i smod 2 = 0 then (0::int) else 2 - 1"
  let ?out1 = "out[nat ?j := out ! nat ?j + 1]"
  have idx: "0 \<le> ?j" "?j < int (length out)" "nat ?j < length out" using Suc.prems by auto
  have step: "incr_at ?j out = Inr ?out1" using idx(1,2) by (rule incr_at_in_range)
  have len: "length ?out1 = 2" using Suc.prems by simp
  obtain out' where out': "middle_alternate 2 (Suc i) k ?out1 = Inr out'" "length out' = 2"
      "sum_list out' = sum_list ?out1 + int k" "?out1 ! 0 \<le> out' ! 0" "?out1 ! 1 \<le> out' ! 1"
    using Suc.IH [OF len] by blast
  have s: "sum_list ?out1 = sum_list out + 1" using idx(3) by (rule sum_list_incr)
  have "out ! 0 \<le> ?out1 ! 0" "out ! 1 \<le> ?out1 ! 1" using Suc.prems by (auto simp: nth_list_update)
  then show ?case using out' s step by auto
qed

lemma sum_list_anchor:
  assumes "2 \<le> k"
  shows "sum_list ((replicate k (0::int))[0 := 1, k - 1 := 1]) = 2"
proof -
  have "sum_list ((replicate k (0::int))[0 := 1]) = 1"
    using assms by (simp add: sum_list_set sum_list_replicate)
  moreover have "(replicate k (0::int))[0 := 1] ! (k - 1) = 0" using assms by simp
  ultimately show ?thesis using assms by (simp add: sum_list_set sum_list_replicate)
qed

text \<open>In deterministic mode slot \<open>j\<close> gains one for every middle commit \<open>c\<close> whose
  offset \<open>(c * 7 + c * c) mod avail\<close>, shifted by one, is \<open>j\<close>.\<close>

lemma middle_spread_det_nth:
  assumes "\<not> JitterDays cfg" and "0 < avail" and "int (length out) = avail + 2" and "j < length out"
  shows "\<exists>out'. middle_spread cfg rnd avail i k out = Inr out' \<and> length out' = length out \<and>
           out' ! j = out ! j +
             int (length (filter (\<lambda>c. 1 + (int c * 7 + int c * int c) mod avail = int j) [i..<i + k]))"
  using assms(3,4)
proof (induction k arbitrary: i out)
  case 0
  show ?case by simp
next
  case (Suc k)
  let ?off = "(int i * 7 + int i * int i) mod avail"
  have sm: "(int i * 7 + int i * int i) smod avail = ?off"
    using assms(2) by (intro smod_nonneg) simp_all
  have off: "dayOffset cfg (rnd i) avail (int i) = Inr ?off" "0 \<le> ?off" "?off < avail"
    using assms(1,2) sm by (simp_all add: dayOffset_def)
  let ?out1 = "out[nat (1 + ?off) := out ! nat (1 + ?off) + 1]"
  have idx: "nat (1 + ?off) < length out" using off(2,3) Suc.prems(1) by linarith
  have step: "incr_at (1 + ?off) out = Inr ?out1"
    using off(2,3) Suc.prems(1) by (intro incr_at_in_range) simp_all
  have len: "int (length ?out1) = avail + 2" "j < length ?out1" using Suc.prems by simp_all
  obtain out' where out': "middle_spread cfg rnd avail (Suc i) k ?out1 = Inr out'"
      "length out' = length ?out1"
      "out' ! j = ?out1 ! j +
         int (length (filter (\<lambda>c. 1 + (int c * 7 + int c * int c) mod avail = int j) [Suc i..<Suc i + k]))"
    using Suc.IH [OF len] by blast
  have here: "?out1 ! j = out ! j + (if 1 + ?off = int j then 1 else 0)"
    using idx Suc.prems(2) off(2) by (auto simp: nth_list_update)
  have range: "[i..<i + Suc k] = i # [Suc i..<Suc i + k]" by (simp add: upt_conv_Cons)
  have cnt: "int (length (filter (\<lambda>c. 1 + (int c * 7 + int c * int c) mod avail = int j) [i..<i + Suc k]))
      = (if 1 + ?off = int j then 1 else 0) +
        int (length (filter (\<lambda>c. 1 + (int c * 7 + int c * int c) mod avail = int j) [Suc i..<Suc i + k]))"
    unfolding range by simp
  have run: "middle_spread cfg rnd avail i (Suc k) out = Inr out'"
    by (simp add: off(1) step out'(1))
  have l: "length out' = length out" using out'(2) by simp
  have v: "out' ! j = out ! j +
      int (length (filter (\<lambda>c. 1 + (int c * 7 + int c * int c) mod avail = int j) [i..<i + Suc k]))"
    unfolding cnt using out'(3) here by linarith
  show ?case using run l v by blast
qed

section \<open>The distributor: the claims\<close>

text \<open>
  C5. For every \<open>n \<ge> 0\<close> and every non-empty list of days (\<open>m \<ge> 1\<close> days), with the days
  jittered or not, the distributor returns \<open>m\<close> counts whose sum is exactly \<open>n\<close>, and when
  \<open>n > 1\<close> and \<open>m > 1\<close> the first and the last count are not zero.
\<close>

theorem distribute_sum_and_anchors:
  assumes "0 \<le> n" and "1 \<le> m"
  shows "\<exists>out. allocateAcrossDays cfg rnd n m = Inr out \<and> length out = nat m \<and> sum_list out = n \<and>
           (1 < n \<and> 1 < m \<longrightarrow> out ! 0 \<noteq> 0 \<and> out ! (nat m - 1) \<noteq> 0)"
proof -
  let ?z = "replicate (nat m) (0::int)"
  consider (zero) "n = 0" | (one) "n = 1" | (oneday) "1 < n" "m = 1" | (general) "1 < n" "1 < m"
    using assms by linarith
  then show ?thesis
  proof cases
    case zero
    then show ?thesis by (simp add: allocateAcrossDays_def sum_list_replicate)
  next
    case one
    have "sum_list (?z[nat (m - 1) := 1]) = 1"
      using assms(2) by (simp add: sum_list_set sum_list_replicate)
    then show ?thesis using one assms(2) by (simp add: allocateAcrossDays_def set_at_def)
  next
    case oneday
    then show ?thesis by (simp add: allocateAcrossDays_def set_at_def)
  next
    case general
    let ?out2 = "?z[0 := 1, nat m - 1 := 1]"
    have m2: "2 \<le> nat m" using general(2) by simp
    have s2: "sum_list ?out2 = 2" using m2 by (rule sum_list_anchor)
    have l2: "length ?out2 = nat m" by simp
    have f2: "?out2 ! 0 = 1" using m2 by (simp add: nth_list_update)
    have e2: "?out2 ! (nat m - 1) = 1" using m2 by simp
    have unfold: "allocateAcrossDays cfg rnd n m =
        (if n > 2 then (if m - 2 > 0 then middle_spread cfg rnd (m - 2) 0 (nat (n - 2)) ?out2
                        else middle_alternate m 0 (nat (n - 2)) ?out2)
         else Inr ?out2)"
      using general by (simp add: allocateAcrossDays_def set_at_def Let_def nat_diff_distrib)
    show ?thesis
    proof (cases "2 < n")
      case False
      then have "n = 2" using general(1) by simp
      then show ?thesis using unfold s2 f2 e2 by simp
    next
      case n: True
      show ?thesis
      proof (cases "0 < m - 2")
        case True
        have len: "int (length ?out2) = (m - 2) + 2" using general(2) by simp
        obtain out' where "middle_spread cfg rnd (m - 2) 0 (nat (n - 2)) ?out2 = Inr out'"
           "length out' = length ?out2" "sum_list out' = sum_list ?out2 + int (nat (n - 2))"
           "out' ! 0 = ?out2 ! 0" "out' ! (length ?out2 - 1) = ?out2 ! (length ?out2 - 1)"
          using middle_spread_inv [OF True len] by blast
        then show ?thesis using unfold n True s2 f2 e2 by simp
      next
        case False
        then have m: "m = 2" using general(2) by simp
        have len: "length ?out2 = 2" using m by simp
        obtain out' where "middle_alternate 2 0 (nat (n - 2)) ?out2 = Inr out'" "length out' = 2"
           "sum_list out' = sum_list ?out2 + int (nat (n - 2))" "?out2 ! 0 \<le> out' ! 0"
           "?out2 ! 1 \<le> out' ! 1"
          using middle_alternate_inv [OF len] by blast
        then show ?thesis using unfold n m s2 f2 e2 by simp
      qed
    qed
  qed
qed

text \<open>The theorem at five commits over four days, days jittered, every raw draw 1.\<close>

theorem distribute_sum_and_anchors_witness:
  "(0::int) \<le> 5 \<and> (1::int) \<le> 4 \<and> (1::int) < 5 \<and> (1::int) < 4 \<and>
   (case allocateAcrossDays office_hours_day_jitter (constant_source 1) 5 4 of
      Inl p \<Rightarrow> False
    | Inr out \<Rightarrow> length out = 4 \<and> sum_list out = 5 \<and> out ! 0 \<noteq> 0 \<and> out ! 3 \<noteq> 0)"
  using distribute_sum_and_anchors [of 5 4 office_hours_day_jitter "constant_source 1"]
  by auto

text \<open>
  C6. In deterministic mode (days not jittered), with more than two commits and more than
  two days, middle commit \<open>c\<close> is counted on the day with index
  \<open>1 + (c * 7 + c * c) mod (m - 2)\<close>: slot \<open>j\<close> holds its anchor (1 for the first and the
  last day) plus the number of middle commits sent there. This gives \<open>[1,4,1]\<close> for 6
  commits over 3 days, \<open>[1,5,1]\<close> for 7 over 3, \<open>[1,13,0,1]\<close> for 15 over 4, and, by
  alternation, \<open>[3,2]\<close> for 5 over 2.
\<close>

theorem distribute_deterministic_spread:
  assumes "\<not> JitterDays cfg"
  shows "(2 < n \<and> 2 < m \<and> j < nat m \<longrightarrow>
           (\<exists>out. allocateAcrossDays cfg rnd n m = Inr out \<and> length out = nat m \<and>
              out ! j = (if j = 0 \<or> j = nat m - 1 then 1 else 0) +
                int (length (filter (\<lambda>c. 1 + (int c * 7 + int c * int c) mod (m - 2) = int j)
                               [0..<nat (n - 2)]))))
         \<and> allocateAcrossDays cfg rnd 6 3 = Inr [1, 4, 1]
         \<and> allocateAcrossDays cfg rnd 7 3 = Inr [1, 5, 1]
         \<and> allocateAcrossDays cfg rnd 15 4 = Inr [1, 13, 0, 1]
         \<and> allocateAcrossDays cfg rnd 5 2 = Inr [3, 2]"
proof (intro conjI impI)
  assume a: "2 < n \<and> 2 < m \<and> j < nat m"
  let ?out2 = "(replicate (nat m) (0::int))[0 := 1, nat m - 1 := 1]"
  have unfold: "allocateAcrossDays cfg rnd n m = middle_spread cfg rnd (m - 2) 0 (nat (n - 2)) ?out2"
    using a by (simp add: allocateAcrossDays_def set_at_def Let_def nat_diff_distrib)
  have len: "int (length ?out2) = (m - 2) + 2" "j < length ?out2" "0 < m - 2" using a by simp_all
  have at: "?out2 ! j = (if j = 0 \<or> j = nat m - 1 then 1 else 0)"
    using a by (auto simp: nth_list_update)
  obtain out' where "middle_spread cfg rnd (m - 2) 0 (nat (n - 2)) ?out2 = Inr out'"
      "length out' = length ?out2"
      "out' ! j = ?out2 ! j +
         int (length (filter (\<lambda>c. 1 + (int c * 7 + int c * int c) mod (m - 2) = int j)
                        [0..<0 + nat (n - 2)]))"
    using middle_spread_det_nth [OF assms len(3) len(1) len(2)] by blast
  then show "\<exists>out. allocateAcrossDays cfg rnd n m = Inr out \<and> length out = nat m \<and>
              out ! j = (if j = 0 \<or> j = nat m - 1 then 1 else 0) +
                int (length (filter (\<lambda>c. 1 + (int c * 7 + int c * int c) mod (m - 2) = int j)
                               [0..<nat (n - 2)]))"
    using unfold at by simp
next
  show "allocateAcrossDays cfg rnd 6 3 = Inr [1, 4, 1]"
    using assms
    by (simp add: allocateAcrossDays_def set_at_def incr_at_def dayOffset_def Let_def
          signed_modulo_int_def eval_nat_numeral)
next
  show "allocateAcrossDays cfg rnd 7 3 = Inr [1, 5, 1]"
    using assms
    by (simp add: allocateAcrossDays_def set_at_def incr_at_def dayOffset_def Let_def
          signed_modulo_int_def eval_nat_numeral)
next
  show "allocateAcrossDays cfg rnd 15 4 = Inr [1, 13, 0, 1]"
    using assms
    by (simp add: allocateAcrossDays_def set_at_def incr_at_def dayOffset_def Let_def
          signed_modulo_int_def eval_nat_numeral)
next
  show "allocateAcrossDays cfg rnd 5 2 = Inr [3, 2]"
    using assms
    by (simp add: allocateAcrossDays_def set_at_def incr_at_def dayOffset_def Let_def
          signed_modulo_int_def eval_nat_numeral)
qed

text \<open>The theorem at six commits over three days, read at the interior day.\<close>

theorem distribute_deterministic_spread_witness:
  "\<not> JitterDays office_hours \<and> (2::int) < 6 \<and> (2::int) < 3 \<and> (1::nat) < nat 3 \<and>
   (case allocateAcrossDays office_hours (constant_source 0) 6 3 of
      Inl p \<Rightarrow> False
    | Inr out \<Rightarrow> length out = 3 \<and> out ! 1 = 4)
   \<and> allocateAcrossDays office_hours (constant_source 0) 15 4 = Inr [1, 13, 0, 1]"
  using distribute_deterministic_spread [of office_hours 6 3 1 "constant_source 0"]
  by (simp add: office_hours_def)

text \<open>
  C7. For a single commit and more than one day, with the days jittered or not, the
  distributor returns 1 in the last slot and 0 in every other slot.
\<close>

theorem distribute_single_commit_last_day:
  assumes "1 < m"
  shows "allocateAcrossDays cfg rnd 1 m = Inr (replicate (nat m - 1) 0 @ [1])"
proof -
  have "(replicate (nat m) (0::int))[nat (m - 1) := 1] = replicate (nat m - 1) 0 @ [1]"
    using assms by (intro nth_equalityI) (auto simp: nth_list_update nth_append nat_diff_distrib)
  then show ?thesis using assms by (simp add: allocateAcrossDays_def set_at_def)
qed

text \<open>The theorem at three days, days jittered.\<close>

theorem distribute_single_commit_last_day_witness:
  "(1::int) < 3 \<and> allocateAcrossDays office_hours_day_jitter (constant_source 0) 1 3 = Inr [0, 0, 1]"
  using distribute_single_commit_last_day [of 3 office_hours_day_jitter "constant_source 0"]
  by (simp add: eval_nat_numeral)

section \<open>The executor: facts about the trace\<close>

lemma runGitCommand_run:
  "args \<noteq> [] \<Longrightarrow> runGitCommand w tr args = (w tr (Git args), tr @ [(Git args, w tr (Git args))])"
  by (simp add: runGitCommand_def run_def Let_def)

text \<open>The recovery of a cherry-pick that failed, as the commands it runs.\<close>

lemma ladder:
  assumes "cherryPick w tr commit = (res, tr')"
    and "w tr (Git [''cherry-pick'', Hash commit]) = Fail"
  shows "\<exists>st. st = w (tr @ [(Git [''cherry-pick'', Hash commit], Fail)]) (Git [''status'']) \<and>
     (if in_cherry_pick_state st
      then (\<exists>out. tr' = tr @ [(Git [''cherry-pick'', Hash commit], Fail), (Git [''status''], st),
                               (Git [''cherry-pick'', ''--continue''], Ok out)] \<and> res = Applied)
         \<or> (\<exists>out. tr' = tr @ [(Git [''cherry-pick'', Hash commit], Fail), (Git [''status''], st),
                               (Git [''cherry-pick'', ''--continue''], Fail),
                               (Git [''cherry-pick'', ''--skip''], Ok out)] \<and> res = Applied)
         \<or> (\<exists>ab out. tr' = tr @ [(Git [''cherry-pick'', Hash commit], Fail), (Git [''status''], st),
                               (Git [''cherry-pick'', ''--continue''], Fail),
                               (Git [''cherry-pick'', ''--skip''], Fail),
                               (Git [''cherry-pick'', ''--abort''], ab),
                               (Git [''cherry-pick'', ''--allow-empty'', Hash commit], Ok out)]
                        \<and> res = Applied)
         \<or> (\<exists>ab. tr' = tr @ [(Git [''cherry-pick'', Hash commit], Fail), (Git [''status''], st),
                               (Git [''cherry-pick'', ''--continue''], Fail),
                               (Git [''cherry-pick'', ''--skip''], Fail),
                               (Git [''cherry-pick'', ''--abort''], ab),
                               (Git [''cherry-pick'', ''--allow-empty'', Hash commit], Fail)]
                        \<and> res = ApplyError (CherryPickFailed (Hash commit)))
      else (\<exists>out. tr' = tr @ [(Git [''cherry-pick'', Hash commit], Fail), (Git [''status''], st),
                               (Git [''cherry-pick'', ''--allow-empty'', Hash commit], Ok out)]
                        \<and> res = Applied)
         \<or> (tr' = tr @ [(Git [''cherry-pick'', Hash commit], Fail), (Git [''status''], st),
                               (Git [''cherry-pick'', ''--allow-empty'', Hash commit], Fail)]
                        \<and> res = ApplyError (CherryPickFailed (Hash commit))))"
  using assms
  by (auto simp add: cherryPick_def runGitCommand_run split: response.splits if_splits)

lemma apply_command_not_amend: "apply_command c \<Longrightarrow> \<not> is_amend c"
  by (cases c) (simp_all add: apply_command_def is_amend_def)

lemma successful_amends_append:
  "successful_amends (a @ b) = successful_amends a + successful_amends b"
  by (simp add: successful_amends_def)

lemma amends_append: "amends (a @ b) = amends a @ amends b"
  by (simp add: amends_def)

lemma apply_only_no_amends:
  assumes "\<forall>e \<in> set ext. apply_command (fst e)"
  shows "successful_amends ext = 0" and "amends ext = []"
  using assms apply_command_not_amend
  by (auto simp: successful_amends_def amends_def filter_empty_conv)

lemma cherryPick_ext:
  assumes "cherryPick w tr commit = (res, tr')"
  shows "\<exists>ext. tr' = tr @ ext \<and> (\<forall>e \<in> set ext. apply_command (fst e)) \<and> res \<noteq> ApplyPanic \<and>
           (\<forall>err. res = ApplyError err \<longrightarrow> err = CherryPickFailed (Hash commit) \<and> ext \<noteq> [] \<and>
              last ext = (Git [''cherry-pick'', ''--allow-empty'', Hash commit], Fail))"
  using assms
  by (auto simp add: cherryPick_def runGitCommand_run apply_command_def
      split: response.splits if_splits)

lemma mergeCommit_ext:
  assumes "mergeCommit s tr commit = (res, tr')"
  shows "\<exists>ext. tr' = tr @ ext \<and> (\<forall>e \<in> set ext. apply_command (fst e)) \<and>
           (\<forall>h. res \<noteq> ApplyError (CherryPickFailed h))"
  using assms
  by (auto simp add: mergeCommit_def runGitCommand_run apply_command_def Let_def
      split: response.splits if_splits)

lemma apply_ext:
  assumes "(if IsMerge commit then mergeCommit s tr commit else cherryPick (git s) tr commit) = (res, tr')"
  shows "\<exists>ext. tr' = tr @ ext \<and> (\<forall>e \<in> set ext. apply_command (fst e)) \<and>
           (\<forall>h. res = ApplyError (CherryPickFailed h) \<longrightarrow> ext \<noteq> [] \<and>
              last ext = (Git [''cherry-pick'', ''--allow-empty'', h], Fail))"
proof (cases "IsMerge commit")
  case True
  then show ?thesis using assms mergeCommit_ext [of s tr commit res tr'] by auto
next
  case False
  then show ?thesis using assms cherryPick_ext [of "git s" tr commit res tr'] by auto
qed

lemma amends_Cons:
  "amends (e # es) = (if is_amend (fst e) then fst e # amends es else amends es)"
  by (simp add: amends_def)

lemma successful_amends_Cons:
  "successful_amends (e # es) =
     (if is_amend (fst e) \<and> is_ok (snd e) then Suc (successful_amends es) else successful_amends es)"
  by (simp add: successful_amends_def)

lemma replay_trace:
  assumes "replay s cs i n tr = (ex, tr')"
  shows "\<exists>ext. tr' = tr @ ext \<and> (\<forall>e \<in> set ext. apply_command (fst e) \<or> is_amend (fst e)) \<and>
     (\<exists>k \<le> length cs. amends ext =
         map (\<lambda>t. amendCommand (Format s t) (newCommitAuthorName s) (newCommitAuthorEmail s))
           (take k (drop i (newTimes s)))) \<and>
     replay_post n (length cs) ext ex"
  using assms
proof (induction cs arbitrary: i n tr ex tr')
  case Nil
  then show ?case by (auto simp: replay_post_def successful_amends_def amends_def)
next
  case (Cons commit rest)
  let ?f = "\<lambda>t. amendCommand (Format s t) (newCommitAuthorName s) (newCommitAuthorEmail s)"
  show ?case
  proof (cases "length (newTimes s) \<le> i")
    case True
    then have "ex = Stopped Panicked" "tr' = tr" using Cons.prems by simp_all
    then show ?thesis by (auto simp: replay_post_def amends_def)
  next
    case inrange: False
    obtain a tr1 where ap:
      "(if IsMerge commit then mergeCommit s tr commit else cherryPick (git s) tr commit) = (a, tr1)"
      by (cases "if IsMerge commit then mergeCommit s tr commit else cherryPick (git s) tr commit")
    obtain ext1 where ext1: "tr1 = tr @ ext1" "\<forall>e \<in> set ext1. apply_command (fst e)"
      "\<forall>h. a = ApplyError (CherryPickFailed h) \<longrightarrow> ext1 \<noteq> [] \<and>
              last ext1 = (Git [''cherry-pick'', ''--allow-empty'', h], Fail)"
      using apply_ext [OF ap] by blast
    have none1: "successful_amends ext1 = 0" "amends ext1 = []"
      using apply_only_no_amends [OF ext1(2)] by simp_all
    have all1: "\<forall>e \<in> set ext1. apply_command (fst e) \<or> is_amend (fst e)" using ext1(2) by blast
    have k0: "amends ext1 = map ?f (take 0 (drop i (newTimes s)))" using none1 by simp
    show ?thesis
    proof (cases a)
      case ApplyPanic
      then have "ex = Stopped Panicked" "tr' = tr1" using Cons.prems inrange ap by (simp_all add: Let_def)
      then show ?thesis using ext1(1) all1 k0 by (auto simp: replay_post_def)
    next
      case (ApplyError e)
      then have "ex = Stopped (Returned n (Some e))" "tr' = tr1"
        using Cons.prems inrange ap by (simp_all add: Let_def)
      moreover have "replay_post n (length (commit # rest)) ext1 (Stopped (Returned n (Some e)))"
        using none1 ext1(3) ApplyError by (simp add: replay_post_def)
      ultimately show ?thesis using ext1(1) all1 k0 by blast
    next
      case Applied
      let ?c = "?f (newTimes s ! i)"
      let ?r = "git s tr1 ?c"
      let ?tr2 = "tr1 @ [(?c, ?r)]"
      have am: "is_amend ?c" by (simp add: amendCommand_def is_amend_def)
      have dr: "drop i (newTimes s) = newTimes s ! i # drop (Suc i) (newTimes s)"
        using inrange by (simp add: Cons_nth_drop_Suc)
      have hd: "take 1 (drop i (newTimes s)) = [newTimes s ! i]"
        unfolding dr by simp
      show ?thesis
      proof (cases ?r)
        case Fail
        then have res: "ex = Stopped (Returned n (Some AmendFailed))" "tr' = ?tr2"
          using Cons.prems inrange ap Applied by (simp_all add: Let_def run_def)
        let ?ext = "ext1 @ [(?c, Fail)]"
        have "tr' = tr @ ?ext" using res(2) ext1(1) Fail by simp
        moreover have "\<forall>e \<in> set ?ext. apply_command (fst e) \<or> is_amend (fst e)"
          using all1 am by auto
        moreover have "amends ?ext = map ?f (take 1 (drop i (newTimes s)))"
          using none1(2) am hd by (simp add: amends_append) (simp add: amends_def)
        moreover have "replay_post n (length (commit # rest)) ?ext ex"
          using res(1) none1(1) by (simp add: replay_post_def successful_amends_append)
               (simp add: successful_amends_def is_ok_def)
        ultimately show ?thesis by (intro exI [of _ ?ext] conjI exI [of _ 1]) simp_all
      next
        case (Ok out)
        then have rec: "replay s rest (Suc i) (Suc n) ?tr2 = (ex, tr')"
          using Cons.prems inrange ap Applied by (simp add: Let_def run_def)
        obtain ext2 k where ext2: "tr' = ?tr2 @ ext2"
            "\<forall>e \<in> set ext2. apply_command (fst e) \<or> is_amend (fst e)"
            "k \<le> length rest" "amends ext2 = map ?f (take k (drop (Suc i) (newTimes s)))"
            "replay_post (Suc n) (length rest) ext2 ex"
          using Cons.IH [OF rec] by blast
        let ?ext = "ext1 @ [(?c, Ok out)] @ ext2"
        have one: "successful_amends [(?c, Ok out)] = 1" "amends [(?c, Ok out)] = [?c]"
          using am by (simp_all add: successful_amends_def amends_def is_ok_def)
        have t: "tr' = tr @ ?ext" using ext2(1) ext1(1) Ok by simp
        have a: "\<forall>e \<in> set ?ext. apply_command (fst e) \<or> is_amend (fst e)"
          using all1 am ext2(2) by auto
        have m: "amends ?ext = map ?f (take (Suc k) (drop i (newTimes s)))"
          using none1(2) am ext2(4) by (simp add: amends_append amends_Cons dr)
        have cnt: "successful_amends ?ext = Suc (successful_amends ext2)"
          using none1(1) am by (simp add: successful_amends_append successful_amends_Cons is_ok_def)
        have lastx: "ext2 \<noteq> [] \<Longrightarrow> last ?ext = last ext2" by simp
        have p: "replay_post n (length (commit # rest)) ?ext ex"
          using ext2(5) cnt lastx
          by (auto simp: replay_post_def split: loop_exit.splits outcome.splits option.splits)
        show ?thesis using t a m p ext2(3)
          by (intro exI [of _ ?ext] conjI exI [of _ "Suc k"]) simp_all
      qed
    qed
  qed
qed

text \<open>Every run of \<open>UpdateCommitTimes\<close> is: the checkouts, the events of the loop, the
  events of the branch swap.\<close>

lemma update_cases:
  assumes "UpdateCommitTimes s commits = (result, tr)"
  shows "\<exists>pre ext tail. tr = pre @ ext @ tail \<and>
           (\<forall>e \<in> set pre. \<exists>args. fst e = Git (''checkout'' # args)) \<and>
           (\<forall>e \<in> set ext. apply_command (fst e) \<or> is_amend (fst e)) \<and>
           (\<exists>k \<le> length commits. amends ext =
              map (\<lambda>t. amendCommand (Format s t) (newCommitAuthorName s) (newCommitAuthorEmail s))
                (take k (newTimes s))) \<and>
           update_shape s (length commits) result ext tail"
proof -
  let ?f = "\<lambda>t. amendCommand (Format s t) (newCommitAuthorName s) (newCommitAuthorEmail s)"
  let ?goal = "\<lambda>pre ext tail. tr = pre @ ext @ tail \<and>
           (\<forall>e \<in> set pre. \<exists>args. fst e = Git (''checkout'' # args)) \<and>
           (\<forall>e \<in> set ext. apply_command (fst e) \<or> is_amend (fst e)) \<and>
           (\<exists>k \<le> length commits. amends ext = map ?f (take k (newTimes s))) \<and>
           update_shape s (length commits) result ext tail"
  have empty_amends: "\<exists>k \<le> length commits. amends [] = map ?f (take k (newTimes s))"
    by (intro exI [of _ 0]) (simp add: amends_def)
  obtain r0 tr0 where i0:
    "(if parentCommitHash s \<noteq> emptyTreeHash
      then runGitCommand (git s) [] [''checkout'', parentCommitHash s]
      else (Ok [], [])) = (r0, tr0)"
    by (cases "if parentCommitHash s \<noteq> emptyTreeHash
      then runGitCommand (git s) [] [''checkout'', parentCommitHash s]
      else (Ok [], [])")
  have pre0: "\<forall>e \<in> set tr0. \<exists>args. fst e = Git (''checkout'' # args)"
    using i0 by (auto simp: runGitCommand_run split: if_splits)
  show ?thesis
  proof (cases r0)
    case Fail
    then have "result = Returned 0 (Some (CheckoutParentFailed (parentCommitHash s)))" "tr = tr0"
      using assms i0 by (simp_all add: UpdateCommitTimes_def)
    then have "?goal tr0 [] []" using pre0 empty_amends by (simp add: update_shape_def)
    then show ?thesis by blast
  next
    case (Ok out0)
    let ?c1 = "Git [''checkout'', ''-b'', rewriteBranchName s]"
    let ?tr1 = "tr0 @ [(?c1, git s tr0 ?c1)]"
    have pre1: "\<forall>e \<in> set ?tr1. \<exists>args. fst e = Git (''checkout'' # args)" using pre0 by auto
    show ?thesis
    proof (cases "git s tr0 ?c1")
      case Fail
      then have "result = Returned 0 (Some (CreateRewriteBranchFailed (rewriteBranchName s)))" "tr = ?tr1"
        using assms i0 Ok by (simp_all add: UpdateCommitTimes_def runGitCommand_run)
      then have "?goal ?tr1 [] []" using pre1 empty_amends by (simp add: update_shape_def)
      then show ?thesis by blast
    next
      case ok1: (Ok out1)
      obtain ex tr2 where rp: "replay s commits 0 0 ?tr1 = (ex, tr2)"
        by (cases "replay s commits 0 0 ?tr1")
      obtain ext where ext: "tr2 = ?tr1 @ ext"
          "\<forall>e \<in> set ext. apply_command (fst e) \<or> is_amend (fst e)"
          "\<exists>k \<le> length commits. amends ext = map ?f (take k (drop 0 (newTimes s)))"
          "replay_post 0 (length commits) ext ex"
        using replay_trace [OF rp] by blast
      have am: "\<exists>k \<le> length commits. amends ext = map ?f (take k (newTimes s))"
        using ext(3) by simp
      have unfold: "UpdateCommitTimes s commits =
          (case (ex, tr2) of
             (Stopped result, tr2) \<Rightarrow> (result, tr2)
           | (Completed successfulUpdates, tr2) \<Rightarrow>
               (case runGitCommand (git s) tr2 [''checkout'', ''-B'', branchName s] of
                  (Fail, tr3) \<Rightarrow>
                    (Returned successfulUpdates (Some (CheckoutBranchFailed (branchName s))), tr3)
                | (Ok out3, tr3) \<Rightarrow>
                    (case runGitCommand (git s) tr3 [''branch'', ''-D'', rewriteBranchName s] of
                       (Fail, tr4) \<Rightarrow>
                         (Returned successfulUpdates
                            (Some (DeleteRewriteBranchFailed (rewriteBranchName s))), tr4)
                     | (Ok out4, tr4) \<Rightarrow> (Returned successfulUpdates None, tr4))))"
        using i0 Ok ok1 rp by (simp add: UpdateCommitTimes_def runGitCommand_run)
      show ?thesis
      proof (cases ex)
        case (Stopped r)
        then have "result = r" "tr = tr2" using assms unfold by simp_all
        then have "?goal ?tr1 ext []"
          using ext(1,2,4) am pre1 Stopped by (simp add: update_shape_def)
        then show ?thesis by blast
      next
        case (Completed m)
        then have m: "m = length commits" "successful_amends ext = length commits"
          using ext(4) by (simp_all add: replay_post_def)
        let ?c3 = "Git [''checkout'', ''-B'', branchName s]"
        let ?tr3 = "tr2 @ [(?c3, git s tr2 ?c3)]"
        show ?thesis
        proof (cases "git s tr2 ?c3")
          case Fail
          then have "result = Returned m (Some (CheckoutBranchFailed (branchName s)))" "tr = ?tr3"
            using assms unfold Completed by (simp_all add: runGitCommand_run)
          then have "?goal ?tr1 ext [(?c3, Fail)]"
            using ext(1,2) am pre1 m Fail by (simp add: update_shape_def)
          then show ?thesis by blast
        next
          case ok3: (Ok out3)
          let ?c4 = "Git [''branch'', ''-D'', rewriteBranchName s]"
          show ?thesis
          proof (cases "git s ?tr3 ?c4")
            case Fail
            then have "result = Returned m (Some (DeleteRewriteBranchFailed (rewriteBranchName s)))"
                "tr = ?tr3 @ [(?c4, Fail)]"
              using assms unfold Completed ok3 by (simp_all add: runGitCommand_run)
            then have "?goal ?tr1 ext [(?c3, Ok out3), (?c4, Fail)]"
              using ext(1,2) am pre1 m ok3 by (simp add: update_shape_def deleteCommand_def)
            then show ?thesis by blast
          next
            case (Ok out4)
            then have "result = Returned m None" "tr = ?tr3 @ [(?c4, Ok out4)]"
              using assms unfold Completed ok3 by (simp_all add: runGitCommand_run)
            then have "?goal ?tr1 ext [(?c3, Ok out3), (?c4, Ok out4)]"
              using ext(1,2) am pre1 m ok3 by (simp add: update_shape_def deleteCommand_def)
            then show ?thesis by blast
          qed
        qed
      qed
    qed
  qed
qed

lemma checkout_only:
  assumes "\<forall>e \<in> set pre. \<exists>args. fst e = Git (''checkout'' # args)"
  shows "successful_amends pre = 0" and "amends pre = []" and "\<not> delete_run rw pre"
  using assms
  by (auto simp: successful_amends_def amends_def delete_run_def deleteCommand_def is_amend_def
        filter_empty_conv)

lemma body_no_delete:
  assumes "\<forall>e \<in> set ext. apply_command (fst e) \<or> is_amend (fst e)"
  shows "\<not> delete_run rw ext"
proof
  assume "delete_run rw ext"
  then obtain b where "(Git [''branch'', ''-D'', rw], b) \<in> set ext"
    by (auto simp: delete_run_def deleteCommand_def)
  then have "apply_command (Git [''branch'', ''-D'', rw]) \<or> is_amend (Git [''branch'', ''-D'', rw])"
    using assms by fastforce
  then show False by (simp add: apply_command_def is_amend_def)
qed

lemma delete_run_append: "delete_run rw (a @ b) = (delete_run rw a \<or> delete_run rw b)"
  by (auto simp: delete_run_def)

lemma deleted_delete_run: "deleted rw tr \<Longrightarrow> delete_run rw tr"
  by (force simp: deleted_def delete_run_def list_ex_iff)

lemma deleted_append: "deleted rw (a @ b) = (deleted rw a \<or> deleted rw b)"
  by (auto simp: deleted_def list_ex_iff)

lemma update_counts:
  assumes "UpdateCommitTimes s commits = (result, tr)"
  shows "\<exists>pre ext tail. tr = pre @ ext @ tail \<and>
           successful_amends tr = successful_amends ext \<and>
           \<not> delete_run (rewriteBranchName s) (pre @ ext) \<and>
           update_shape s (length commits) result ext tail"
proof -
  obtain pre ext tail where u: "tr = pre @ ext @ tail"
      "\<forall>e \<in> set pre. \<exists>args. fst e = Git (''checkout'' # args)"
      "\<forall>e \<in> set ext. apply_command (fst e) \<or> is_amend (fst e)"
      "update_shape s (length commits) result ext tail"
    using update_cases [OF assms] by blast
  have "successful_amends tail = 0"
    using u(4) by (auto simp: update_shape_def successful_amends_def is_amend_def deleteCommand_def)
  then have "successful_amends tr = successful_amends ext"
    using u(1) checkout_only(1) [OF u(2)] by (simp add: successful_amends_append)
  moreover have "\<not> delete_run (rewriteBranchName s) (pre @ ext)"
    using checkout_only(3) [OF u(2)] body_no_delete [OF u(3)] by (simp add: delete_run_append)
  ultimately show ?thesis using u(1,4) by blast
qed

lemma update_cherry_pick_failed:
  assumes "UpdateCommitTimes s commits = (Returned n (Some (CherryPickFailed h)), tr)"
  shows "n = successful_amends tr \<and> n < length commits \<and> tr \<noteq> [] \<and>
         last tr = (Git [''cherry-pick'', ''--allow-empty'', h], Fail)"
proof -
  obtain pre ext tail where u: "tr = pre @ ext @ tail"
      "successful_amends tr = successful_amends ext"
      "update_shape s (length commits) (Returned n (Some (CherryPickFailed h))) ext tail"
    using update_counts [OF assms] by blast
  have "tail = [] \<and> replay_post 0 (length commits) ext (Stopped (Returned n (Some (CherryPickFailed h))))"
    using u(3) by (auto simp: update_shape_def)
  then show ?thesis using u(1,2) by (auto simp: replay_post_def)
qed

lemma env_value_dates:
  "env_value ''GIT_AUTHOR_DATE'' (amendEnv d name email) = Some d"
  "env_value ''GIT_COMMITTER_DATE'' (amendEnv d name email) = Some d"
  by (simp_all add: env_value_def amendEnv_def)

lemma mergeCommit_no_panic:
  assumes "MergeFrom commit = [] \<or> 8 \<le> length (MergeFrom commit)"
    and "mergeCommit s tr commit = (res, tr')"
  shows "res \<noteq> ApplyPanic"
  using assms
  by (auto simp add: mergeCommit_def runGitCommand_run Let_def split: response.splits if_splits)

lemma replay_no_panic:
  assumes "i + length cs \<le> length (newTimes s)"
    and "\<forall>c \<in> set cs. IsMerge c \<longrightarrow> MergeFrom c = [] \<or> 8 \<le> length (MergeFrom c)"
    and "replay s cs i n tr = (ex, tr')"
  shows "ex \<noteq> Stopped Panicked"
  using assms
proof (induction cs arbitrary: i n tr)
  case Nil
  then show ?case by auto
next
  case (Cons commit rest)
  have inrange: "\<not> length (newTimes s) \<le> i" using Cons.prems(1) by simp
  obtain a tr1 where ap:
    "(if IsMerge commit then mergeCommit s tr commit else cherryPick (git s) tr commit) = (a, tr1)"
    by (cases "if IsMerge commit then mergeCommit s tr commit else cherryPick (git s) tr commit")
  have np: "a \<noteq> ApplyPanic"
  proof (cases "IsMerge commit")
    case True
    then show ?thesis using ap Cons.prems(2) mergeCommit_no_panic [of commit s tr a tr1] by simp
  next
    case False
    then show ?thesis using ap cherryPick_ext [of "git s" tr commit a tr1] by auto
  qed
  show ?case
  proof (cases a)
    case ApplyPanic
    then show ?thesis using np by simp
  next
    case (ApplyError e)
    then show ?thesis using Cons.prems(3) inrange ap by (auto simp: Let_def)
  next
    case Applied
    let ?c = "amendCommand (Format s (newTimes s ! i)) (newCommitAuthorName s) (newCommitAuthorEmail s)"
    show ?thesis
    proof (cases "git s tr1 ?c")
      case Fail
      then show ?thesis using Cons.prems(3) inrange ap Applied by (auto simp: Let_def run_def)
    next
      case (Ok out)
      then have rec: "replay s rest (Suc i) (Suc n) (tr1 @ [(?c, Ok out)]) = (ex, tr')"
        using Cons.prems(3) inrange ap Applied by (simp add: Let_def run_def)
      have "Suc i + length rest \<le> length (newTimes s)" using Cons.prems(1) by simp
      moreover have "\<forall>c \<in> set rest. IsMerge c \<longrightarrow> MergeFrom c = [] \<or> 8 \<le> length (MergeFrom c)"
        using Cons.prems(2) by simp
      ultimately show ?thesis using Cons.IH rec by blast
    qed
  qed
qed

lemma update_no_panic:
  assumes "length commits \<le> length (newTimes s)"
    and "\<forall>c \<in> set commits. IsMerge c \<longrightarrow> MergeFrom c = [] \<or> 8 \<le> length (MergeFrom c)"
    and "UpdateCommitTimes s commits = (result, tr)"
  shows "result \<noteq> Panicked"
proof
  assume p: "result = Panicked"
  obtain pre ext tail where u: "update_shape s (length commits) result ext tail"
    using update_cases [OF assms(3)] by blast
  have "replay_post 0 (length commits) ext (Stopped Panicked)"
    using u p by (auto simp: update_shape_def)
  obtain r0 tr0 where i0:
    "(if parentCommitHash s \<noteq> emptyTreeHash
      then runGitCommand (git s) [] [''checkout'', parentCommitHash s]
      else (Ok [], [])) = (r0, tr0)"
    by (cases "if parentCommitHash s \<noteq> emptyTreeHash
      then runGitCommand (git s) [] [''checkout'', parentCommitHash s]
      else (Ok [], [])")
  let ?tr1 = "tr0 @ [(Git [''checkout'', ''-b'', rewriteBranchName s],
                      git s tr0 (Git [''checkout'', ''-b'', rewriteBranchName s]))]"
  obtain ex tr2 where rp: "replay s commits 0 0 ?tr1 = (ex, tr2)"
    by (cases "replay s commits 0 0 ?tr1")
  have "ex \<noteq> Stopped Panicked"
    using replay_no_panic [of 0 commits s 0 ?tr1 ex tr2] assms(1,2) rp by simp
  then show False
    using assms(3) p i0 rp
    by (auto simp: UpdateCommitTimes_def runGitCommand_run
          split: response.splits loop_exit.splits if_splits)
qed

text \<open>Three runs over Alice's commit, one in each world.\<close>

lemma stuck_run:
  "UpdateCommitTimes (plain_session stuck_world) [alices_commit] =
     (Returned 0 (Some (CherryPickFailed ''1f2e3d4c'')),
      [(Git [''checkout'', ''9a8b7c6d''], Ok []),
       (Git [''checkout'', ''-b'', ''rewrite-history''], Ok []),
       (Git [''cherry-pick'', ''1f2e3d4c''], Fail),
       (Git [''status''], Ok ''nothing to commit, working tree clean''),
       (Git [''cherry-pick'', ''--allow-empty'', ''1f2e3d4c''], Fail)])"
  by (simp add: UpdateCommitTimes_def plain_session_def stuck_world_def alices_commit_def
        emptyTreeHash_def runGitCommand_run cherryPick_def in_cherry_pick_state_def Let_def)

lemma conflicting_run:
  "UpdateCommitTimes (plain_session conflicting_world) [alices_commit] =
     (Returned 0 (Some (CherryPickFailed ''1f2e3d4c'')),
      [(Git [''checkout'', ''9a8b7c6d''], Ok []),
       (Git [''checkout'', ''-b'', ''rewrite-history''], Ok []),
       (Git [''cherry-pick'', ''1f2e3d4c''], Fail),
       (Git [''status''], Ok ''You are currently cherry-picking commit 1f2e3d4.''),
       (Git [''cherry-pick'', ''--continue''], Fail),
       (Git [''cherry-pick'', ''--skip''], Fail),
       (Git [''cherry-pick'', ''--abort''], Fail),
       (Git [''cherry-pick'', ''--allow-empty'', ''1f2e3d4c''], Fail)])"
  by (simp add: UpdateCommitTimes_def plain_session_def conflicting_world_def alices_commit_def
        emptyTreeHash_def runGitCommand_run cherryPick_def in_cherry_pick_state_def Let_def)

lemma obliging_run:
  "UpdateCommitTimes (plain_session obliging_world) [alices_commit] =
     (Returned 1 None,
      [(Git [''checkout'', ''9a8b7c6d''], Ok []),
       (Git [''checkout'', ''-b'', ''rewrite-history''], Ok []),
       (Git [''cherry-pick'', ''1f2e3d4c''], Ok []),
       (GitEnv [''commit'', ''--amend'', ''--no-edit'', ''--reset-author'']
          [''GIT_AUTHOR_DATE=1970-01-01T00:00:00'', ''GIT_COMMITTER_DATE=1970-01-01T00:00:00''], Ok []),
       (Git [''checkout'', ''-B'', ''main''], Ok []),
       (Git [''branch'', ''-D'', ''rewrite-history''], Ok [])])"
  by (simp add: UpdateCommitTimes_def plain_session_def obliging_world_def alices_commit_def
        emptyTreeHash_def runGitCommand_run cherryPick_def in_cherry_pick_state_def Let_def
        run_def amendCommand_def amendEnv_def stamp_def)

section \<open>The executor: the claims\<close>

text \<open>
  C1. The claim is that the amend stamps the planned time as author and committer date
  and, with no author override configured, leaves the author of the rewritten commit the
  one of the original commit. The code does the first and misses the second: it adds the
  identity variables only when an override is given, but runs every amend with
  \<open>--reset-author\<close>, which tells git to renew the authorship. In the run below nothing is
  overridden and the commit is Alice's; the amend is
  \<open>git commit --amend --no-edit --reset-author\<close>, it carries the planned time in
  \<open>GIT_AUTHOR_DATE\<close> and \<open>GIT_COMMITTER_DATE\<close>, and it names no author: neither
  \<open>GIT_AUTHOR_NAME\<close> nor \<open>GIT_AUTHOR_EMAIL\<close> is assigned, nor is Alice named anywhere in
  the commands of the run. The author git then writes is whoever runs the tool.
\<close>

theorem amend_resets_author_without_override:
  "newCommitAuthorName (plain_session obliging_world) = []
   \<and> newCommitAuthorEmail (plain_session obliging_world) = []
   \<and> (Author alices_commit, Email alices_commit) = (''Alice'', ''alice@example.com'')
   \<and> UpdateCommitTimes (plain_session obliging_world) [alices_commit] =
       (Returned 1 None,
        [(Git [''checkout'', ''9a8b7c6d''], Ok []),
         (Git [''checkout'', ''-b'', ''rewrite-history''], Ok []),
         (Git [''cherry-pick'', ''1f2e3d4c''], Ok []),
         (GitEnv [''commit'', ''--amend'', ''--no-edit'', ''--reset-author'']
            [''GIT_AUTHOR_DATE=1970-01-01T00:00:00'', ''GIT_COMMITTER_DATE=1970-01-01T00:00:00''],
          Ok []),
         (Git [''checkout'', ''-B'', ''main''], Ok []),
         (Git [''branch'', ''-D'', ''rewrite-history''], Ok [])])
   \<and> amends (snd (UpdateCommitTimes (plain_session obliging_world) [alices_commit]))
       = [GitEnv [''commit'', ''--amend'', ''--no-edit'', ''--reset-author'']
            (amendEnv (Format (plain_session obliging_world) 0) [] [])]
   \<and> amendEnv (Format (plain_session obliging_world) 0) [] []
       = [''GIT_AUTHOR_DATE=1970-01-01T00:00:00'', ''GIT_COMMITTER_DATE=1970-01-01T00:00:00'']
   \<and> env_value ''GIT_AUTHOR_DATE'' (amendEnv (Format (plain_session obliging_world) 0) [] [])
       = Some ''1970-01-01T00:00:00''
   \<and> env_value ''GIT_COMMITTER_DATE'' (amendEnv (Format (plain_session obliging_world) 0) [] [])
       = Some ''1970-01-01T00:00:00''
   \<and> env_value ''GIT_AUTHOR_NAME'' (amendEnv (Format (plain_session obliging_world) 0) [] []) = None
   \<and> env_value ''GIT_AUTHOR_EMAIL'' (amendEnv (Format (plain_session obliging_world) 0) [] []) = None"
proof -
  have env: "amendEnv (Format (plain_session obliging_world) 0) [] []
       = [''GIT_AUTHOR_DATE=1970-01-01T00:00:00'', ''GIT_COMMITTER_DATE=1970-01-01T00:00:00'']"
    by (simp add: amendEnv_def plain_session_def stamp_def)
  have no: "newCommitAuthorName (plain_session obliging_world) = []"
      "newCommitAuthorEmail (plain_session obliging_world) = []"
    by (simp_all add: plain_session_def)
  have alice: "(Author alices_commit, Email alices_commit) = (''Alice'', ''alice@example.com'')"
    by (simp add: alices_commit_def)
  have am: "amends (snd (UpdateCommitTimes (plain_session obliging_world) [alices_commit]))
       = [GitEnv [''commit'', ''--amend'', ''--no-edit'', ''--reset-author'']
            (amendEnv (Format (plain_session obliging_world) 0) [] [])]"
    unfolding env by (simp add: obliging_run amends_def is_amend_def)
  have dates: "env_value ''GIT_AUTHOR_DATE'' (amendEnv (Format (plain_session obliging_world) 0) [] [])
         = Some ''1970-01-01T00:00:00''"
      "env_value ''GIT_COMMITTER_DATE'' (amendEnv (Format (plain_session obliging_world) 0) [] [])
         = Some ''1970-01-01T00:00:00''"
    unfolding env by (simp_all add: env_value_def)
  have unset: "env_value ''GIT_AUTHOR_NAME'' (amendEnv (Format (plain_session obliging_world) 0) [] []) = None"
      "env_value ''GIT_AUTHOR_EMAIL'' (amendEnv (Format (plain_session obliging_world) 0) [] []) = None"
    unfolding env by (simp_all add: env_value_def)
  show ?thesis using no alice obliging_run am env dates unset by blast
qed

text \<open>
  C8, as amended. When the cherry-pick of a regular commit fails, \<open>git status\<close> is asked.
  If it reports a cherry-pick in progress, the executor runs \<open>--continue\<close>, then
  \<open>--skip\<close>, then \<open>--abort\<close> followed by a new cherry-pick with \<open>--allow-empty\<close>, in this
  order, each only after the one before failed (the result of \<open>--abort\<close> is ignored), and
  stops at the first that succeeds. If no cherry-pick in progress is reported, it runs
  none of continue, skip and abort and goes straight to the cherry-pick with
  \<open>--allow-empty\<close>. In both cases the step fails only when that last cherry-pick fails,
  and \<open>UpdateCommitTimes\<close> then returns this error right away, with the number of commits
  amended successfully so far.
\<close>

theorem recovery_ladder:
  "(cherryPick w tr commit = (res, tr') \<and> w tr (Git [''cherry-pick'', Hash commit]) = Fail \<longrightarrow>
     (\<exists>st. st = w (tr @ [(Git [''cherry-pick'', Hash commit], Fail)]) (Git [''status'']) \<and>
       (if in_cherry_pick_state st
        then (\<exists>out. tr' = tr @ [(Git [''cherry-pick'', Hash commit], Fail), (Git [''status''], st),
                               (Git [''cherry-pick'', ''--continue''], Ok out)] \<and> res = Applied)
           \<or> (\<exists>out. tr' = tr @ [(Git [''cherry-pick'', Hash commit], Fail), (Git [''status''], st),
                               (Git [''cherry-pick'', ''--continue''], Fail),
                               (Git [''cherry-pick'', ''--skip''], Ok out)] \<and> res = Applied)
           \<or> (\<exists>ab out. tr' = tr @ [(Git [''cherry-pick'', Hash commit], Fail), (Git [''status''], st),
                               (Git [''cherry-pick'', ''--continue''], Fail),
                               (Git [''cherry-pick'', ''--skip''], Fail),
                               (Git [''cherry-pick'', ''--abort''], ab),
                               (Git [''cherry-pick'', ''--allow-empty'', Hash commit], Ok out)]
                        \<and> res = Applied)
           \<or> (\<exists>ab. tr' = tr @ [(Git [''cherry-pick'', Hash commit], Fail), (Git [''status''], st),
                               (Git [''cherry-pick'', ''--continue''], Fail),
                               (Git [''cherry-pick'', ''--skip''], Fail),
                               (Git [''cherry-pick'', ''--abort''], ab),
                               (Git [''cherry-pick'', ''--allow-empty'', Hash commit], Fail)]
                        \<and> res = ApplyError (CherryPickFailed (Hash commit)))
        else (\<exists>out. tr' = tr @ [(Git [''cherry-pick'', Hash commit], Fail), (Git [''status''], st),
                               (Git [''cherry-pick'', ''--allow-empty'', Hash commit], Ok out)]
                        \<and> res = Applied)
           \<or> (tr' = tr @ [(Git [''cherry-pick'', Hash commit], Fail), (Git [''status''], st),
                               (Git [''cherry-pick'', ''--allow-empty'', Hash commit], Fail)]
                        \<and> res = ApplyError (CherryPickFailed (Hash commit))))))
   \<and> (UpdateCommitTimes s commits = (Returned n (Some (CherryPickFailed h)), trace) \<longrightarrow>
        n = successful_amends trace \<and> n < length commits \<and> trace \<noteq> [] \<and>
        last trace = (Git [''cherry-pick'', ''--allow-empty'', h], Fail))"
  using ladder [of w tr commit res tr'] update_cherry_pick_failed [of s commits n h trace]
  by blast

text \<open>The theorem in the world where a cherry-pick is in progress and nothing helps.\<close>

theorem recovery_ladder_witness:
  "cherryPick conflicting_world [] alices_commit =
     (ApplyError (CherryPickFailed ''1f2e3d4c''),
      [(Git [''cherry-pick'', ''1f2e3d4c''], Fail),
       (Git [''status''], Ok ''You are currently cherry-picking commit 1f2e3d4.''),
       (Git [''cherry-pick'', ''--continue''], Fail),
       (Git [''cherry-pick'', ''--skip''], Fail),
       (Git [''cherry-pick'', ''--abort''], Fail),
       (Git [''cherry-pick'', ''--allow-empty'', ''1f2e3d4c''], Fail)])
   \<and> conflicting_world [] (Git [''cherry-pick'', Hash alices_commit]) = Fail
   \<and> in_cherry_pick_state
        (conflicting_world [(Git [''cherry-pick'', Hash alices_commit], Fail)] (Git [''status'']))
   \<and> fst (UpdateCommitTimes (plain_session conflicting_world) [alices_commit])
        = Returned 0 (Some (CherryPickFailed ''1f2e3d4c''))
   \<and> successful_amends (snd (UpdateCommitTimes (plain_session conflicting_world) [alices_commit])) = 0
   \<and> last (snd (UpdateCommitTimes (plain_session conflicting_world) [alices_commit]))
        = (Git [''cherry-pick'', ''--allow-empty'', ''1f2e3d4c''], Fail)"
proof -
  have run1: "cherryPick conflicting_world [] alices_commit =
     (ApplyError (CherryPickFailed ''1f2e3d4c''),
      [(Git [''cherry-pick'', ''1f2e3d4c''], Fail),
       (Git [''status''], Ok ''You are currently cherry-picking commit 1f2e3d4.''),
       (Git [''cherry-pick'', ''--continue''], Fail),
       (Git [''cherry-pick'', ''--skip''], Fail),
       (Git [''cherry-pick'', ''--abort''], Fail),
       (Git [''cherry-pick'', ''--allow-empty'', ''1f2e3d4c''], Fail)])"
    by (simp add: conflicting_world_def alices_commit_def runGitCommand_run cherryPick_def
          in_cherry_pick_state_def)
  have first: "conflicting_world [] (Git [''cherry-pick'', Hash alices_commit]) = Fail"
    by (simp add: conflicting_world_def alices_commit_def)
  have st: "in_cherry_pick_state
        (conflicting_world [(Git [''cherry-pick'', Hash alices_commit], Fail)] (Git [''status'']))"
    by (simp add: conflicting_world_def in_cherry_pick_state_def)
  note shape = recovery_ladder [THEN conjunct1, rule_format, OF conjI [OF run1 first]]
  note fatal = recovery_ladder [THEN conjunct2, rule_format, OF conflicting_run]
  show ?thesis using shape fatal run1 first st by (simp add: conflicting_run)
qed

text \<open>
  C8 as stated fails where no cherry-pick in progress is reported: the run ends with the
  fatal error after the cherry-pick with \<open>--allow-empty\<close> failed, and neither \<open>--continue\<close>
  nor \<open>--skip\<close> nor \<open>--abort\<close> was ever run.
\<close>

theorem recovery_without_skip_counterexample:
  "UpdateCommitTimes (plain_session stuck_world) [alices_commit] =
     (Returned 0 (Some (CherryPickFailed ''1f2e3d4c'')),
      [(Git [''checkout'', ''9a8b7c6d''], Ok []),
       (Git [''checkout'', ''-b'', ''rewrite-history''], Ok []),
       (Git [''cherry-pick'', ''1f2e3d4c''], Fail),
       (Git [''status''], Ok ''nothing to commit, working tree clean''),
       (Git [''cherry-pick'', ''--allow-empty'', ''1f2e3d4c''], Fail)])"
  by (rule stuck_run)

text \<open>
  C9. Whenever \<open>UpdateCommitTimes\<close> returns an error, the count it returns with it is the
  number of commits replayed successfully so far (applied and amended), at most the number
  of commits, and the rewrite branch has not been deleted. The deletion is run only as the
  last command of a run, right after \<open>checkout -B\<close> of the original branch name succeeded,
  and then every commit has been replayed successfully. A run that panics deletes nothing,
  and with as many timestamps as commits and merge sources that are full hashes no run
  panics: every failing path returns.
\<close>

theorem failure_keeps_rewrite_branch:
  assumes "UpdateCommitTimes s commits = (result, tr)"
  shows "(\<forall>n e. result = Returned n (Some e) \<longrightarrow>
            n = successful_amends tr \<and> n \<le> length commits \<and> \<not> deleted (rewriteBranchName s) tr)
       \<and> (result = Panicked \<longrightarrow> \<not> delete_run (rewriteBranchName s) tr)
       \<and> (delete_run (rewriteBranchName s) tr \<longrightarrow>
            successful_amends tr = length commits \<and>
            (\<exists>pre out r. tr = pre @ [(Git [''checkout'', ''-B'', branchName s], Ok out),
                                      (deleteCommand (rewriteBranchName s), r)] \<and>
               \<not> delete_run (rewriteBranchName s) pre))
       \<and> (length commits \<le> length (newTimes s) \<and>
            (\<forall>c \<in> set commits. IsMerge c \<longrightarrow> MergeFrom c = [] \<or> 8 \<le> length (MergeFrom c)) \<longrightarrow>
            result \<noteq> Panicked)"
proof -
  have returns: "length commits \<le> length (newTimes s) \<and>
            (\<forall>c \<in> set commits. IsMerge c \<longrightarrow> MergeFrom c = [] \<or> 8 \<le> length (MergeFrom c)) \<longrightarrow>
            result \<noteq> Panicked"
    using update_no_panic [of commits s result tr] assms by blast
  let ?rw = "rewriteBranchName s"
  obtain pre ext tail where u: "tr = pre @ ext @ tail"
      "successful_amends tr = successful_amends ext"
      "\<not> delete_run ?rw (pre @ ext)"
      "update_shape s (length commits) result ext tail"
    using update_counts [OF assms] by blast
  have nd: "\<not> deleted ?rw (pre @ ext)" using u(3) deleted_delete_run by blast
  have tr: "tr = (pre @ ext) @ tail" using u(1) by simp
  consider (early) "tail = []" "ext = []"
        "result = Returned 0 (Some (CheckoutParentFailed (parentCommitHash s))) \<or>
         result = Returned 0 (Some (CreateRewriteBranchFailed ?rw))"
    | (stopped) "tail = []" "replay_post 0 (length commits) ext (Stopped result)"
    | (swap) "successful_amends ext = length commits"
        "tail = [(Git [''checkout'', ''-B'', branchName s], Fail)]"
        "result = Returned (length commits) (Some (CheckoutBranchFailed (branchName s)))"
    | (undeleted) out where "successful_amends ext = length commits"
        "tail = [(Git [''checkout'', ''-B'', branchName s], Ok out), (deleteCommand ?rw, Fail)]"
        "result = Returned (length commits) (Some (DeleteRewriteBranchFailed ?rw))"
    | (finished) out out' where "successful_amends ext = length commits"
        "tail = [(Git [''checkout'', ''-B'', branchName s], Ok out), (deleteCommand ?rw, Ok out')]"
        "result = Returned (length commits) None"
    using u(4) unfolding update_shape_def by blast
  then show ?thesis
  proof cases
    case early
    then show ?thesis using u(2,3) nd tr returns by (auto simp: successful_amends_def)
  next
    case stopped
    then show ?thesis using u(2,3) nd tr returns
      by (auto simp: replay_post_def split: outcome.splits option.splits)
  next
    case swap
    have "\<not> delete_run ?rw tail" "\<not> deleted ?rw tail"
      using swap(2) by (simp_all add: delete_run_def deleted_def deleteCommand_def)
    then show ?thesis using swap u(2,3) nd tr returns by (simp add: delete_run_append deleted_append)
  next
    case undeleted
    have "\<not> deleted ?rw tail"
      using undeleted(2) by (simp add: deleted_def is_ok_def deleteCommand_def)
    moreover have "tr = (pre @ ext) @ [(Git [''checkout'', ''-B'', branchName s], Ok out),
                                      (deleteCommand ?rw, Fail)]"
      using tr undeleted(2) by simp
    ultimately show ?thesis using undeleted(1,3) u(2,3) nd tr returns
      by (auto simp: deleted_append)
  next
    case finished
    have "tr = (pre @ ext) @ [(Git [''checkout'', ''-B'', branchName s], Ok out),
                               (deleteCommand ?rw, Ok out')]"
      using tr finished(2) by simp
    then show ?thesis using finished(1,3) u(2,3) returns by auto
  qed
qed

text \<open>The theorem at a failing run (nothing helps the cherry-pick) and at a run that
  goes through.\<close>

theorem failure_keeps_rewrite_branch_witness:
  "fst (UpdateCommitTimes (plain_session conflicting_world) [alices_commit])
      = Returned 0 (Some (CherryPickFailed ''1f2e3d4c''))
   \<and> successful_amends (snd (UpdateCommitTimes (plain_session conflicting_world) [alices_commit])) = 0
   \<and> \<not> deleted ''rewrite-history'' (snd (UpdateCommitTimes (plain_session conflicting_world) [alices_commit]))
   \<and> fst (UpdateCommitTimes (plain_session obliging_world) [alices_commit]) = Returned 1 None
   \<and> delete_run ''rewrite-history'' (snd (UpdateCommitTimes (plain_session obliging_world) [alices_commit]))
   \<and> successful_amends (snd (UpdateCommitTimes (plain_session obliging_world) [alices_commit])) = 1"
proof -
  have rw: "rewriteBranchName (plain_session conflicting_world) = ''rewrite-history''"
      "rewriteBranchName (plain_session obliging_world) = ''rewrite-history''"
    by (simp_all add: plain_session_def)
  have dr: "delete_run ''rewrite-history'' (snd (UpdateCommitTimes (plain_session obliging_world) [alices_commit]))"
    by (simp add: obliging_run delete_run_def deleteCommand_def)
  note failing = failure_keeps_rewrite_branch [OF conflicting_run, THEN conjunct1, rule_format, OF refl]
  note swapped = failure_keeps_rewrite_branch [OF obliging_run, THEN conjunct2, THEN conjunct2,
      THEN conjunct1, rule_format, THEN conjunct1]
  have "successful_amends (snd (UpdateCommitTimes (plain_session obliging_world) [alices_commit])) = 1"
    using swapped dr by (simp add: rw obliging_run)
  then show ?thesis using failing dr by (simp add: rw conflicting_run obliging_run)
qed


end
